theory Spec2Isabelle
  imports Main
begin

section \<open>Result tagging: relocated errors and merged results\<close>

subsection \<open>Errors\<close>

text \<open>
  A path segment is a field name or a list index (\<^verbatim>\<open>string | number\<close>). Numbers in a
  path are list indices, so they are natural numbers here.
\<close>

datatype segment = Name string | Index nat

text \<open>
  An AST node, as far as an error reads it: its location \<^verbatim>\<open>node.loc\<close>, when it has
  one, with the offset \<^verbatim>\<open>loc.start\<close> and the source \<^verbatim>\<open>loc.source\<close> (its text).
\<close>

datatype Location = Location (locStart: nat) (locSource: string)

datatype ASTNode = ASTNode (nodeLoc: "Location option")

text \<open>
  An error object, as the arguments its constructor was called with:
  \<^verbatim>\<open>new GraphQLError(message, nodes, source, positions, path, originalError, extensions)\<close>.
  An absent (\<^verbatim>\<open>undefined\<close>) argument is \<open>None\<close>; a path that is present but has
  no segment is \<open>Some []\<close>. A plain \<^verbatim>\<open>Error\<close> is an error object with a message
  only. The message, the path and the original error are stored as they are passed.
\<close>

datatype GraphQLError = GraphQLError
  (message: string)
  (passedNodes: "ASTNode list option")
  (passedSource: "string option")
  (passedPositions: "nat list option")
  (path: "segment list option")
  (originalError: "GraphQLError option")
  (passedExtensions: "(string \<times> string) list option")

text \<open>
  The other properties of an error object are set by the constructor, which belongs to
  the graphql library and not to this repository. They are modelled as the library
  computes them:
  \<^item> \<^verbatim>\<open>nodes\<close> is the array passed, and absent when the array is empty;
  \<^item> \<^verbatim>\<open>source\<close> is the source passed, and else the source of the location of the
    first node;
  \<^item> \<^verbatim>\<open>positions\<close> are the positions passed, and else the offsets of the locations
    of the nodes; an empty array of positions is absent;
  \<^item> \<^verbatim>\<open>extensions\<close> are the extensions passed, and else those of
    \<^verbatim>\<open>originalError\<close>.

  The property \<^verbatim>\<open>locations\<close> (lines and columns) is read by no function here and
  is left out.
\<close>

definition normalizeNodes :: "ASTNode list option \<Rightarrow> ASTNode list option" where
  "normalizeNodes ns = (case ns of None \<Rightarrow> None | Some [] \<Rightarrow> None | Some (n # rest) \<Rightarrow> Some (n # rest))"

definition sourceOfNodes :: "ASTNode list option \<Rightarrow> string option" where
  "sourceOfNodes ns =
     (case ns of
        None \<Rightarrow> None
      | Some [] \<Rightarrow> None
      | Some (n # rest) \<Rightarrow> (case nodeLoc n of None \<Rightarrow> None | Some l \<Rightarrow> Some (locSource l)))"

definition positionsOfNodes :: "ASTNode list option \<Rightarrow> nat list option" where
  "positionsOfNodes ns =
     (case ns of
        None \<Rightarrow> None
      | Some l \<Rightarrow>
          Some (concat (map (\<lambda>n. case nodeLoc n of None \<Rightarrow> [] | Some lc \<Rightarrow> [locStart lc]) l)))"

definition normalizePositions :: "nat list option \<Rightarrow> nat list option" where
  "normalizePositions ps = (case ps of None \<Rightarrow> None | Some [] \<Rightarrow> None | Some (p # rest) \<Rightarrow> Some (p # rest))"

definition nodes :: "GraphQLError \<Rightarrow> ASTNode list option" where
  "nodes e = normalizeNodes (passedNodes e)"

definition source :: "GraphQLError \<Rightarrow> string option" where
  "source e = (case passedSource e of Some src \<Rightarrow> Some src | None \<Rightarrow> sourceOfNodes (nodes e))"

definition positions :: "GraphQLError \<Rightarrow> nat list option" where
  "positions e =
     normalizePositions
       (case passedPositions e of Some ps \<Rightarrow> Some ps | None \<Rightarrow> positionsOfNodes (nodes e))"

fun extensions :: "GraphQLError \<Rightarrow> (string \<times> string) list option" where
  "extensions (GraphQLError msg ns src pos p orig ext) =
     (case ext of
        Some x \<Rightarrow> Some x
      | None \<Rightarrow> (case orig of Some e \<Rightarrow> extensions e | None \<Rightarrow> None))"

declare extensions.simps [simp del]

text \<open>
  \<^verbatim>\<open>relocatedError(originalError, nodes, path)\<close>. The first branch is taken when the
  original error has a path (\<^verbatim>\<open>Array.isArray(originalError.path)\<close>); there
  \<^verbatim>\<open>path ? path : originalError.path\<close> keeps the original path when no new path is
  passed. The second branch passes the nodes of the original, or else the fallback nodes,
  the original error itself as \<^verbatim>\<open>originalError\<close>, and no extensions. Each branch
  passes the properties of the original to the constructor, which computes the properties
  of the new error from them.
\<close>

definition relocatedError ::
  "GraphQLError \<Rightarrow> ASTNode list option \<Rightarrow> segment list option \<Rightarrow> GraphQLError" where
  "relocatedError originalErr fallbackNodes newPath =
     (if path originalErr \<noteq> None then
        GraphQLError (message originalErr) (nodes originalErr) (source originalErr)
          (positions originalErr)
          (case newPath of Some p \<Rightarrow> Some p | None \<Rightarrow> path originalErr)
          (originalError originalErr) (extensions originalErr)
      else
        GraphQLError (message originalErr)
          (case nodes originalErr of Some ns \<Rightarrow> Some ns | None \<Rightarrow> fallbackNodes)
          (source originalErr) (positions originalErr) newPath (Some originalErr) None)"

text \<open>
  The call both branches of \<^verbatim>\<open>createMergedResult\<close> make:
  \<^verbatim>\<open>relocatedError(error, error.nodes, error.path ? error.path.slice(1) : undefined)\<close>.
\<close>

definition relocateBelow :: "GraphQLError \<Rightarrow> GraphQLError" where
  "relocateBelow error = relocatedError error (nodes error) (map_option (drop 1) (path error))"

text \<open>
  An error store makes the allocation of \<^verbatim>\<open>new GraphQLError(...)\<close> explicit: error
  objects live at the indices of a list, the original is read at its address and the
  relocated error is written to a fresh address.
\<close>

definition relocatedErrorAt ::
  "GraphQLError list \<Rightarrow> nat \<Rightarrow> ASTNode list option \<Rightarrow> segment list option \<Rightarrow>
   GraphQLError list \<times> nat" where
  "relocatedErrorAt errorStore a fallbackNodes newPath =
     (errorStore @ [relocatedError (errorStore ! a) fallbackNodes newPath], length errorStore)"

subsection \<open>Result values and the object store\<close>

text \<open>
  Result values. Objects are references into a store, so that tagging an object in place
  is visible through every reference to it; arrays are only read and rebuilt
  (\<^verbatim>\<open>Array.prototype.map\<close>), so they are values.
\<close>

datatype jsval =
    JUndefined
  | JNull
  | JBool bool
  | JNum int
  | JStr string
  | JArray "jsval list"
  | JObject nat

type_synonym subschema = string

text \<open>
  An object: its string-keyed properties, and the three symbol-keyed tags
  \<^verbatim>\<open>MERGED_NULL_SYMBOL\<close>, \<^verbatim>\<open>ERROR_SYMBOL\<close> and \<^verbatim>\<open>SUBSCHEMAS_SYMBOL\<close>
  (an environment with \<^verbatim>\<open>Symbol\<close>, where a tag key is no string key).
\<close>

record js_object =
  properties :: "(string \<times> jsval) list"
  mergedNull :: bool
  errorsTag :: "GraphQLError list option"
  subschemasTag :: "subschema list option"

record store =
  objects :: "nat \<Rightarrow> js_object"
  fresh :: nat

datatype js_error = TypeError | Error string

definition emptyObject :: js_object where
  "emptyObject = \<lparr>properties = [], mergedNull = False, errorsTag = None, subschemasTag = None\<rparr>"

definition allocObject :: "store \<Rightarrow> js_object \<Rightarrow> store \<times> nat" where
  "allocObject st obj = (st\<lparr>objects := (objects st)(fresh st := obj), fresh := Suc (fresh st)\<rparr>, fresh st)"

text \<open>
  \<^verbatim>\<open>result[ERROR_SYMBOL] = errors.map(...); result[SUBSCHEMAS_SYMBOL] = subschemas\<close>
\<close>

definition tagObject :: "store \<Rightarrow> nat \<Rightarrow> GraphQLError list \<Rightarrow> subschema list \<Rightarrow> store" where
  "tagObject st a errors subschemas =
     st\<lparr>objects := (objects st)
        (a := (objects st a)\<lparr>errorsTag := Some (map relocateBelow errors),
                              subschemasTag := Some subschemas\<rparr>)\<rparr>"

subsection \<open>Property keys\<close>

definition digitChar :: "nat \<Rightarrow> char" where
  "digitChar d = ''0123456789'' ! d"

text \<open>The decimal spelling of a number, as string conversion and template strings give it.\<close>

fun decimal :: "nat \<Rightarrow> string" where
  "decimal n = (if n < 10 then [digitChar n] else decimal (n div 10) @ [digitChar (n mod 10)])"

declare decimal.simps [simp del]

text \<open>
  \<^verbatim>\<open>byIndex[index]\<close> converts \<^verbatim>\<open>index\<close> to a property key: a string is its own
  key, a number its decimal spelling, and a missing segment
  (\<^verbatim>\<open>error.path[1]\<close> of a path with one segment) the key \<^verbatim>\<open>"undefined"\<close>.
\<close>

fun propertyKey :: "segment option \<Rightarrow> string" where
  "propertyKey None = ''undefined''"
| "propertyKey (Some (Name s)) = s"
| "propertyKey (Some (Index n)) = decimal n"

definition segmentAt :: "segment list \<Rightarrow> nat \<Rightarrow> segment option" where
  "segmentAt p i = (if i < length p then Some (p ! i) else None)"

text \<open>
  \<^verbatim>\<open>const byIndex = {}\<close> inherits the properties of \<^verbatim>\<open>Object.prototype\<close>. For
  one of these keys \<^verbatim>\<open>byIndex[index] || []\<close> is the inherited value, which has no
  \<^verbatim>\<open>push\<close>, and \<^verbatim>\<open>current.push(...)\<close> raises a TypeError.
\<close>

definition objectPrototypeKeys :: "string list" where
  "objectPrototypeKeys =
     [''constructor'', ''__defineGetter__'', ''__defineSetter__'', ''hasOwnProperty'',
      ''__lookupGetter__'', ''__lookupSetter__'', ''isPrototypeOf'', ''propertyIsEnumerable'',
      ''toString'', ''valueOf'', ''__proto__'', ''toLocaleString'']"

text \<open>
  The \<^verbatim>\<open>errors.forEach\<close> loop of the array branch, on the own properties of
  \<^verbatim>\<open>byIndex\<close>. An error without a path is skipped.
\<close>

fun groupByIndex ::
  "(string \<rightharpoonup> GraphQLError list) \<Rightarrow> GraphQLError list \<Rightarrow> js_error + (string \<rightharpoonup> GraphQLError list)" where
  "groupByIndex byIndex [] = Inr byIndex"
| "groupByIndex byIndex (error # rest) =
     (case path error of
        None \<Rightarrow> groupByIndex byIndex rest
      | Some p \<Rightarrow>
          (let index = propertyKey (segmentAt p 1) in
           case byIndex index of
             Some current \<Rightarrow> groupByIndex (byIndex(index \<mapsto> current @ [relocateBelow error])) rest
           | None \<Rightarrow>
               if index \<in> set objectPrototypeKeys then Inl TypeError
               else groupByIndex (byIndex(index \<mapsto> [relocateBelow error])) rest))"

text \<open>
  \<^verbatim>\<open>byIndex[index]\<close> as the \<^verbatim>\<open>errors\<close> argument of the recursive call: a missing
  entry is \<^verbatim>\<open>undefined\<close>, for which the default \<^verbatim>\<open>errors = []\<close> applies.
\<close>

definition errorsAt :: "(string \<rightharpoonup> GraphQLError list) \<Rightarrow> nat \<Rightarrow> GraphQLError list" where
  "errorsAt byIndex i = (case byIndex (decimal i) of Some es \<Rightarrow> es | None \<Rightarrow> [])"

subsection \<open>createMergedResult\<close>

text \<open>
  \<^verbatim>\<open>createMergedResult(result, errors, subschemas)\<close>, with the store passed through.
  \<open>mapItems\<close> is \<^verbatim>\<open>result.map((item, index) => createMergedResult(item, byIndex[index], subschemas))\<close>
  from index \<open>i\<close> on.
\<close>

fun createMergedResult ::
    "store \<Rightarrow> jsval \<Rightarrow> GraphQLError list \<Rightarrow> subschema list \<Rightarrow> js_error + (store \<times> jsval)"
  and mapItems ::
    "store \<Rightarrow> jsval list \<Rightarrow> nat \<Rightarrow> (string \<rightharpoonup> GraphQLError list) \<Rightarrow> subschema list \<Rightarrow>
     js_error + (store \<times> jsval list)" where
  "createMergedResult st JUndefined errors subschemas =
     (case allocObject st (emptyObject\<lparr>mergedNull := True\<rparr>) of
        (st', a) \<Rightarrow> Inr (tagObject st' a errors subschemas, JObject a))"
| "createMergedResult st JNull errors subschemas =
     (case allocObject st (emptyObject\<lparr>mergedNull := True\<rparr>) of
        (st', a) \<Rightarrow> Inr (tagObject st' a errors subschemas, JObject a))"
| "createMergedResult st (JBool b) errors subschemas = Inr (st, JBool b)"
| "createMergedResult st (JNum n) errors subschemas = Inr (st, JNum n)"
| "createMergedResult st (JStr s) errors subschemas = Inr (st, JStr s)"
| "createMergedResult st (JArray items) errors subschemas =
     (case groupByIndex Map.empty errors of
        Inl e \<Rightarrow> Inl e
      | Inr byIndex \<Rightarrow>
          (case mapItems st items 0 byIndex subschemas of
             Inl e \<Rightarrow> Inl e
           | Inr (st', items') \<Rightarrow> Inr (st', JArray items')))"
| "createMergedResult st (JObject a) errors subschemas =
     Inr (tagObject st a errors subschemas, JObject a)"
| "mapItems st [] i byIndex subschemas = Inr (st, [])"
| "mapItems st (item # rest) i byIndex subschemas =
     (case createMergedResult st item (errorsAt byIndex i) subschemas of
        Inl e \<Rightarrow> Inl e
      | Inr (st1, item') \<Rightarrow>
          (case mapItems st1 rest (Suc i) byIndex subschemas of
             Inl e \<Rightarrow> Inl e
           | Inr (st2, rest') \<Rightarrow> Inr (st2, item' # rest')))"

subsection \<open>Reading the tags\<close>

text \<open>
  \<^verbatim>\<open>!error.path || error.path[0] === fieldName\<close>: a path that is present is truthy
  even when it has no segment, and then its first segment is \<^verbatim>\<open>undefined\<close>.
\<close>

definition errorConcernsField :: "string \<Rightarrow> GraphQLError \<Rightarrow> bool" where
  "errorConcernsField fieldName error =
     (case path error of
        None \<Rightarrow> True
      | Some p \<Rightarrow> (case p of [] \<Rightarrow> False | s # _ \<Rightarrow> s = Name fieldName))"

text \<open>
  \<^verbatim>\<open>getErrorsFromParent(object, fieldName)\<close>; \<open>None\<close> is the \<^verbatim>\<open>null\<close> it
  returns when \<^verbatim>\<open>object && object[ERROR_SYMBOL]\<close> is not an array.
\<close>

fun getErrorsFromParent :: "store \<Rightarrow> jsval \<Rightarrow> string \<Rightarrow> GraphQLError list option" where
  "getErrorsFromParent st (JObject a) fieldName =
     (case errorsTag (objects st a) of
        None \<Rightarrow> None
      | Some errors \<Rightarrow> Some (filter (errorConcernsField fieldName) errors))"
| "getErrorsFromParent st v fieldName = None"

text \<open>\<^verbatim>\<open>getSubschemasFromParent(object)\<close>\<close>

fun getSubschemasFromParent :: "store \<Rightarrow> jsval \<Rightarrow> subschema list option" where
  "getSubschemasFromParent st (JObject a) = subschemasTag (objects st a)"
| "getSubschemasFromParent st v = None"

subsection \<open>combineErrors\<close>

text \<open>\<^verbatim>\<open>errors.map(error => error.message).join('\n')\<close>\<close>

fun joinLines :: "string list \<Rightarrow> string" where
  "joinLines [] = []"
| "joinLines [s] = s"
| "joinLines (s # t # rest) = s @ [CHR 0x0A] @ joinLines (t # rest)"

datatype combined = Single GraphQLError | CombinedError string "GraphQLError list"

text \<open>
  \<^verbatim>\<open>combineErrors(errors)\<close>: a copy of the only error, or a \<^verbatim>\<open>CombinedError\<close> with
  the joined message and the list itself.
\<close>

definition combineErrors :: "GraphQLError list \<Rightarrow> combined" where
  "combineErrors errors =
     (case errors of
        [e] \<Rightarrow> Single (GraphQLError (message e) (nodes e) (source e) (positions e) (path e)
                  (originalError e) (extensions e))
      | _ \<Rightarrow> CombinedError (joinLines (map message errors)) errors)"

subsection \<open>Predicates of the statements\<close>


text \<open>
  The grouping loop raises on an error whose second segment is the name of a property
  that \<^verbatim>\<open>{}\<close> inherits.
\<close>

definition groupsUnderInheritedName :: "GraphQLError \<Rightarrow> bool" where
  "groupsUnderInheritedName error =
     (case path error of
        None \<Rightarrow> False
      | Some p \<Rightarrow> propertyKey (segmentAt p 1) \<in> set objectPrototypeKeys)"


subsection \<open>Example values\<close>

definition exampleErr :: GraphQLError where
  "exampleErr =
     GraphQLError ''boom'' (Some [ASTNode (Some (Location 2 ''{ a }''))]) (Some ''{ a }'') (Some [2])
       (Some [Name ''r'', Name ''a'']) None (Some [(''code'', ''E1'')])"

definition examplePlain :: GraphQLError where
  "examplePlain = GraphQLError ''plain'' None None None None (Some (GraphQLError ''cause'' None None None None None (Some [(''code'', ''E0'')]))) None"

definition exampleNodes :: "ASTNode list" where
  "exampleNodes = [ASTNode (Some (Location 4 ''{ b }'')), ASTNode None]"

definition errAB :: GraphQLError where
  "errAB = GraphQLError ''first'' None None None (Some [Name ''a'', Name ''b'']) None None"

definition errC :: GraphQLError where
  "errC = GraphQLError ''second'' None None None (Some [Name ''c'']) None None"

definition errRAB :: GraphQLError where
  "errRAB = GraphQLError ''first'' None None None (Some [Name ''r'', Name ''a'', Name ''b'']) None None"

definition errRC :: GraphQLError where
  "errRC = GraphQLError ''second'' None None None (Some [Name ''r'', Name ''c'']) None None"

definition errNoPath :: GraphQLError where
  "errNoPath = GraphQLError ''no path'' None None None None None None"



definition errInherited :: GraphQLError where
  "errInherited = GraphQLError ''sixth'' None None None (Some [Name ''items'', Name ''constructor'']) None None"

definition exampleStore :: store where
  "exampleStore =
     \<lparr>objects = (\<lambda>_. emptyObject)
        (0 := emptyObject\<lparr>properties := [(''a'', JObject 1), (''c'', JNum 5)]\<rparr>,
         1 := emptyObject\<lparr>properties := [(''b'', JNum 1)]\<rparr>),
      fresh = 2\<rparr>"

definition exampleTagged :: store where
  "exampleTagged =
     \<lparr>objects = (\<lambda>_. emptyObject)
        (0 := emptyObject\<lparr>properties := [(''a'', JObject 1), (''c'', JNum 5)],
                           errorsTag := Some [errAB, errNoPath, errC]\<rparr>,
         1 := emptyObject\<lparr>properties := [(''b'', JNum 1)]\<rparr>),
      fresh = 2\<rparr>"

section \<open>AddArgumentsAsVariablesTransform\<close>

subsection \<open>Types, schema and request\<close>

datatype TypeNode = NamedType string | ListType TypeNode | NonNullType TypeNode

text \<open>
  Argument values. \<open>AInherited k\<close> is the value that a lookup of \<open>k\<close> in a plain object
  finds on \<^verbatim>\<open>Object.prototype\<close>: a function, or the prototype itself.
\<close>

datatype argval =
    AUndefined
  | ANull
  | ABool bool
  | ANum int
  | AStr string
  | AList "argval list"
  | AObject "(string \<times> argval) list"
  | AInherited string

text \<open>
  Input types. An enum type carries the table its \<^verbatim>\<open>serialize\<close> looks a value up in
  (a method of the graphql library); an input object type carries the types of its fields.
\<close>

datatype GraphQLInputType =
    GraphQLNonNull GraphQLInputType
  | GraphQLList GraphQLInputType
  | GraphQLEnumType string "(argval \<times> argval) list"
  | GraphQLScalarType string
  | GraphQLInputObjectType string "(string \<times> GraphQLInputType) list"

record GraphQLArgument =
  argumentName :: string
  argumentType :: GraphQLInputType

record GraphQLField =
  fieldArgs :: "GraphQLArgument list"

text \<open>An object type is the table \<^verbatim>\<open>getFields()\<close> returns; a schema has up to three root types.\<close>

type_synonym GraphQLObjectType = "(string \<times> GraphQLField) list"

record GraphQLSchema =
  queryType :: "GraphQLObjectType option"
  mutationType :: "GraphQLObjectType option"
  subscriptionType :: "GraphQLObjectType option"

text \<open>
  The AST. Parts of a node that the transform only copies (alias, directives, nested
  selection set, default value, location) are one text per node.
\<close>

datatype ValueNode = VariableNode string | LiteralNode string

record ArgumentNode =
  argName :: string
  argValue :: ValueNode

record VariableDefinitionNode =
  variableName :: string
  variableType :: TypeNode
  variableRest :: string

datatype SelectionNode =
    FieldNode string "ArgumentNode list" string
  | OtherSelection string

datatype OperationType = Query | Mutation | Subscription

text \<open>
  The code writes by \<^verbatim>\<open>push\<close> and by assignment to a key. An array it pushes to,
  or an object it assigns to, is a cell of a store when the caller holds arrays or objects
  of the same kind, and then the caller's are cells of the same store: the arrays of
  selections (\<^verbatim>\<open>newSelectionSet\<close>; the selections of an operation) and the objects of
  values (\<^verbatim>\<open>newVariables\<close>; the variables of a request, the arguments of a
  transform). An operation, a request and a transform refer to their cells by address.
  The other containers the code writes to are created by the call and hold names and new
  nodes (\<^verbatim>\<open>existingVariables\<close>, \<^verbatim>\<open>variables\<close>, \<^verbatim>\<open>newArgs\<close>,
  \<^verbatim>\<open>variableNames\<close>); they are local state. Arrays and nodes that no statement writes
  to (the definitions of a document, the variable definitions of an operation, the
  arguments of a field) are values.
\<close>

record OperationDefinitionNode =
  operation :: OperationType
  variableDefinitions :: "VariableDefinitionNode list"
  selections :: nat
  operationRest :: string

datatype DefinitionNode =
    OperationDefinition OperationDefinitionNode
  | FragmentDefinition string
  | OtherDefinition string

record DocumentNode =
  definitions :: "DefinitionNode list"
  documentRest :: string

record Request =
  document :: DocumentNode
  variables :: nat

record AddArgumentsAsVariablesTransform =
  schema :: GraphQLSchema
  args :: nat

text \<open>
  The state of a call: the two stores with their allocation pointers, and the variables
  and containers local to \<^verbatim>\<open>addVariablesToRootField\<close> (\<^verbatim>\<open>variableNames\<close>,
  \<^verbatim>\<open>newVariables\<close>), to the current operation (\<^verbatim>\<open>existingVariables\<close>,
  \<^verbatim>\<open>variableCounter\<close>, \<^verbatim>\<open>variables\<close>, \<^verbatim>\<open>newSelectionSet\<close>) and to the current
  selection (\<^verbatim>\<open>newArgs\<close>). \<^verbatim>\<open>newVariables\<close> and \<^verbatim>\<open>newSelectionSet\<close> are
  references into the stores.
\<close>

record tstate =
  selectionArrays :: "nat \<Rightarrow> SelectionNode list"
  nextSelectionArray :: nat
  valueObjects :: "nat \<Rightarrow> (string \<times> argval) list"
  nextValueObject :: nat
  variableNames :: "(string \<times> string) list"
  newVariables :: nat
  existingVariables :: "string list"
  variableCounter :: nat
  operationVariables :: "(string \<times> VariableDefinitionNode) list"
  newSelectionSet :: nat
  newArgs :: "(string \<times> ArgumentNode) list"

subsection \<open>Plain objects as dictionaries\<close>

text \<open>
  \<^verbatim>\<open>obj[key] = value\<close> on a plain object: the value of a key that is present is
  replaced, a new key is added last. \<^verbatim>\<open>Object.keys\<close> lists the keys in this order
  (the keys here are GraphQL names and generated variable names, never numbers).
\<close>

fun assign :: "(string \<times> 'a) list \<Rightarrow> string \<Rightarrow> 'a \<Rightarrow> (string \<times> 'a) list" where
  "assign [] key v = [(key, v)]"
| "assign ((k, w) # rest) key v = (if k = key then (k, v) # rest else (k, w) # assign rest key v)"

text \<open>\<^verbatim>\<open>key in obj\<close>, which also finds the properties a plain object inherits.\<close>

definition hasProperty :: "(string \<times> argval) list \<Rightarrow> string \<Rightarrow> bool" where
  "hasProperty obj key = (key \<in> fst ` set obj \<or> key \<in> set objectPrototypeKeys)"

text \<open>\<^verbatim>\<open>obj[key]\<close>\<close>

definition getProperty :: "(string \<times> argval) list \<Rightarrow> string \<Rightarrow> argval" where
  "getProperty obj key =
     (case map_of obj key of
        Some v \<Rightarrow> v
      | None \<Rightarrow> if key \<in> set objectPrototypeKeys then AInherited key else AUndefined)"

subsection \<open>typeToAst and serializeArgumentValue\<close>

fun typeToAst :: "GraphQLInputType \<Rightarrow> js_error + TypeNode" where
  "typeToAst (GraphQLNonNull t) =
     (case typeToAst t of
        Inl e \<Rightarrow> Inl e
      | Inr innerType \<Rightarrow>
          (case innerType of
             NonNullType _ \<Rightarrow> Inl (Error ''Incorrent inner non-null type'')
           | _ \<Rightarrow> Inr (NonNullType innerType)))"
| "typeToAst (GraphQLList t) =
     (case typeToAst t of Inl e \<Rightarrow> Inl e | Inr innerType \<Rightarrow> Inr (ListType innerType))"
| "typeToAst (GraphQLEnumType n _) = Inr (NamedType n)"
| "typeToAst (GraphQLScalarType n) = Inr (NamedType n)"
| "typeToAst (GraphQLInputObjectType n _) = Inr (NamedType n)"

text \<open>\<^verbatim>\<open>getNullableType(type)\<close>\<close>

fun getNullableType :: "GraphQLInputType \<Rightarrow> GraphQLInputType" where
  "getNullableType (GraphQLNonNull t) = t"
| "getNullableType t = t"

text \<open>
  \<^verbatim>\<open>Object.keys(value)\<close> with the values \<^verbatim>\<open>value[k]\<close>: the entries of an object,
  the indices of an array or a string, nothing for a number, a boolean or a function.
\<close>

fun ownEntries :: "argval \<Rightarrow> (string \<times> argval) list" where
  "ownEntries (AObject entries) = entries"
| "ownEntries (AList items) = map (\<lambda>i. (decimal i, items ! i)) [0..<length items]"
| "ownEntries (AStr s) = map (\<lambda>i. (decimal i, AStr [s ! i])) [0..<length s]"
| "ownEntries v = []"

text \<open>
  \<^verbatim>\<open>serializeArgumentValue(type, value)\<close>. \<open>serializeItems\<close> is \<^verbatim>\<open>value.map\<close> on
  the items of an array, \<open>serializeEntries\<close> the \<^verbatim>\<open>reduce\<close> over the keys with the
  accumulator \<^verbatim>\<open>acc\<close>. \<^verbatim>\<open>value.map\<close> of a value that is no array, and the type of
  a field the input object type does not have, raise a TypeError. The function returns
  \<^verbatim>\<open>undefined\<close> when no branch applies.
\<close>

function serializeArgumentValue :: "GraphQLInputType \<Rightarrow> argval \<Rightarrow> js_error + argval"
  and serializeItems :: "GraphQLInputType \<Rightarrow> argval list \<Rightarrow> js_error + argval list"
  and serializeEntries ::
    "(string \<times> GraphQLInputType) list \<Rightarrow> (string \<times> argval) list \<Rightarrow> (string \<times> argval) list \<Rightarrow>
     js_error + (string \<times> argval) list" where
  "serializeArgumentValue type v =
     (if v = ANull \<or> v = AUndefined then Inr ANull
      else
        (case getNullableType type of
           GraphQLEnumType n table \<Rightarrow>
             Inr (case map_of table v of Some s \<Rightarrow> s | None \<Rightarrow> AUndefined)
         | GraphQLScalarType n \<Rightarrow> Inr v
         | GraphQLList ofType \<Rightarrow>
             (case v of
                AList items \<Rightarrow>
                  (case serializeItems ofType items of
                     Inl e \<Rightarrow> Inl e
                   | Inr items' \<Rightarrow> Inr (AList items'))
              | _ \<Rightarrow> Inl TypeError)
         | GraphQLInputObjectType n fieldTypes \<Rightarrow>
             (case serializeEntries fieldTypes (ownEntries v) [] of
                Inl e \<Rightarrow> Inl e
              | Inr acc \<Rightarrow> Inr (AObject acc))
         | GraphQLNonNull t \<Rightarrow> Inr AUndefined))"
| "serializeItems ofType [] = Inr []"
| "serializeItems ofType (v # rest) =
     (case serializeArgumentValue ofType v of
        Inl e \<Rightarrow> Inl e
      | Inr v' \<Rightarrow>
          (case serializeItems ofType rest of Inl e \<Rightarrow> Inl e | Inr rest' \<Rightarrow> Inr (v' # rest')))"
| "serializeEntries fieldTypes [] acc = Inr acc"
| "serializeEntries fieldTypes ((k, v) # rest) acc =
     (case map_of fieldTypes k of
        None \<Rightarrow> Inl TypeError
      | Some fieldType \<Rightarrow>
          (case serializeArgumentValue fieldType v of
             Inl e \<Rightarrow> Inl e
           | Inr v' \<Rightarrow> serializeEntries fieldTypes rest (assign acc k v')))"
  by pat_completeness auto

lemma nullable_size: "size (getNullableType t) \<le> size t"
  by (cases t) simp_all

lemma field_type_size:
  "map_of fieldTypes k = Some t \<Longrightarrow> size t < size_list (size_prod (\<lambda>_. 0) size) fieldTypes"
  by (induction fieldTypes) (auto split: if_splits)

termination serializeArgumentValue
proof (relation "measures
     [\<lambda>x. case x of
        Inl (t, v) \<Rightarrow> size t
      | Inr (Inl (t, items)) \<Rightarrow> size t
      | Inr (Inr (fieldTypes, entries, acc)) \<Rightarrow> size_list (size_prod (\<lambda>_. 0) size) fieldTypes,
      \<lambda>x. case x of
        Inl (t, v) \<Rightarrow> 0
      | Inr (Inl (t, items)) \<Rightarrow> Suc (length items)
      | Inr (Inr (fieldTypes, entries, acc)) \<Rightarrow> Suc (length entries)]", goal_cases)
  case 1
  then show ?case by simp
next
  case (2 type v ofType items)
  with nullable_size[of type] show ?case by simp
next
  case (3 type v n fieldTypes)
  with nullable_size[of type] show ?case by simp
next
  case (4 ofType v rest)
  then show ?case by simp
next
  case (5 ofType v rest v')
  then show ?case by simp
next
  case (6 fieldTypes k v rest acc fieldType)
  then show ?case using field_type_size[of fieldTypes k fieldType] by simp
next
  case (7 fieldTypes k v rest acc fieldType v')
  then show ?case by simp
qed

subsection \<open>Generated variable names\<close>

text \<open>\<^verbatim>\<open>`_v${variableCounter}_${argName}`\<close>\<close>

definition variableNameFor :: "nat \<Rightarrow> string \<Rightarrow> string" where
  "variableNameFor counter argumentNm = ''_v'' @ decimal counter @ ''_'' @ argumentNm"

lemma digitChar_inj: "a < 10 \<Longrightarrow> b < 10 \<Longrightarrow> digitChar a = digitChar b \<Longrightarrow> a = b"
proof -
  assume a: "a < 10" and b: "b < 10" and e: "digitChar a = digitChar b"
  have d: "distinct ''0123456789''" by simp
  have "length ''0123456789'' = 10" by simp
  with a b e d show ?thesis
    unfolding digitChar_def by (metis nth_eq_iff_index_eq)
qed

lemma decimal_nonempty: "decimal n \<noteq> []"
  by (subst decimal.simps) simp

lemma decimal_inj: "decimal a = decimal b \<Longrightarrow> a = b"
proof (induction a arbitrary: b rule: decimal.induct)
  case (1 n)
  show ?case
  proof (cases "n < 10")
    case True
    then have dn: "decimal n = [digitChar n]" by (subst decimal.simps) simp
    show ?thesis
    proof (cases "b < 10")
      case True
      then have "decimal b = [digitChar b]" by (subst decimal.simps) simp
      with dn "1.prems" \<open>n < 10\<close> True show ?thesis by (auto dest: digitChar_inj)
    next
      case False
      then have "decimal b = decimal (b div 10) @ [digitChar (b mod 10)]"
        by (subst decimal.simps) simp
      with dn "1.prems" decimal_nonempty[of "b div 10"] show ?thesis by auto
    qed
  next
    case False
    then have dn: "decimal n = decimal (n div 10) @ [digitChar (n mod 10)]"
      by (subst decimal.simps) simp
    show ?thesis
    proof (cases "b < 10")
      case True
      then have "decimal b = [digitChar b]" by (subst decimal.simps) simp
      with dn "1.prems" decimal_nonempty[of "n div 10"] show ?thesis by auto
    next
      case b: False
      then have db: "decimal b = decimal (b div 10) @ [digitChar (b mod 10)]"
        by (subst decimal.simps) simp
      from dn db "1.prems" have e1: "decimal (n div 10) = decimal (b div 10)"
        and e2: "digitChar (n mod 10) = digitChar (b mod 10)" by auto
      from "1.IH"[OF False e1] have "n div 10 = b div 10" .
      moreover from e2 have "n mod 10 = b mod 10" by (auto dest!: digitChar_inj[rotated 2])
      ultimately show ?thesis by (metis div_mult_mod_eq)
    qed
  qed
qed

lemma variableNameFor_inj: "inj (\<lambda>counter. variableNameFor counter argumentNm)"
  by (rule injI) (simp add: variableNameFor_def decimal_inj)

lemma finite_taken_counters:
  "finite {k. counter \<le> k \<and> variableNameFor k argumentNm \<in> set existing}"
proof -
  have "finite ((\<lambda>k. variableNameFor k argumentNm) -` set existing)"
    by (rule finite_vimageI[OF _ variableNameFor_inj]) simp
  then show ?thesis by (rule rev_finite_subset) auto
qed

text \<open>
  \<^verbatim>\<open>generateVariableName(argName)\<close>, on the \<^verbatim>\<open>existingVariables\<close> and the
  \<^verbatim>\<open>variableCounter\<close> of the enclosing operation; it returns the name and the counter.
  The body of the \<^verbatim>\<open>do ... while\<close> runs, and runs again while the name is taken.
\<close>

function generateVariableName :: "string list \<Rightarrow> nat \<Rightarrow> string \<Rightarrow> string \<times> nat" where
  "generateVariableName existing counter argumentNm =
     (if variableNameFor counter argumentNm \<in> set existing
      then generateVariableName existing (Suc counter) argumentNm
      else (variableNameFor counter argumentNm, Suc counter))"
  by pat_completeness auto

termination generateVariableName
proof (relation "measure (\<lambda>(existing, counter, argumentNm).
     card {k. counter \<le> k \<and> variableNameFor k argumentNm \<in> set existing})", goal_cases)
  case 1
  then show ?case by simp
next
  case (2 existing counter argumentNm)
  let ?A = "{k. Suc counter \<le> k \<and> variableNameFor k argumentNm \<in> set existing}"
  let ?B = "{k. counter \<le> k \<and> variableNameFor k argumentNm \<in> set existing}"
  have "counter \<in> ?B" and "counter \<notin> ?A" using 2 by auto
  moreover have "?A \<subseteq> ?B" by auto
  ultimately have "?A \<subset> ?B" by blast
  then show ?case
    by (simp add: psubset_card_mono[OF finite_taken_counters])
qed

declare generateVariableName.simps [simp del]

subsection \<open>addVariablesToRootField\<close>

text \<open>\<^verbatim>\<open>newSelectionSet.push(selection)\<close>\<close>

definition pushSelection :: "SelectionNode \<Rightarrow> tstate \<Rightarrow> tstate" where
  "pushSelection selection st =
     st\<lparr>selectionArrays := (selectionArrays st)
        (newSelectionSet st := selectionArrays st (newSelectionSet st) @ [selection])\<rparr>"

text \<open>
  The body of \<^verbatim>\<open>field.args.forEach\<close> for one argument of the field; \<open>argsRef\<close> is
  the \<^verbatim>\<open>args\<close> object of the transform. The result is the error raised, if any.
\<close>

definition injectArgument :: "nat \<Rightarrow> GraphQLArgument \<Rightarrow> tstate \<Rightarrow> js_error option \<times> tstate" where
  "injectArgument argsRef argument st =
     (if hasProperty (valueObjects st argsRef) (argumentName argument) then
        (case generateVariableName (existingVariables st) (variableCounter st) (argumentName argument) of
           (varName, counter) \<Rightarrow>
             (let st1 = st\<lparr>variableCounter := counter,
                            variableNames := assign (variableNames st) (argumentName argument) varName,
                            newArgs := assign (newArgs st) (argumentName argument)
                              \<lparr>argName = argumentName argument, argValue = VariableNode varName\<rparr>,
                            existingVariables := existingVariables st @ [varName]\<rparr>
              in case typeToAst (argumentType argument) of
                   Inl e \<Rightarrow> (Some e, st1)
                 | Inr typeNode \<Rightarrow>
                     (let st2 = st1\<lparr>operationVariables := assign (operationVariables st1) varName
                                  \<lparr>variableName = varName, variableType = typeNode, variableRest = []\<rparr>\<rparr>
                      in case serializeArgumentValue (argumentType argument)
                                (getProperty (valueObjects st2 argsRef) (argumentName argument)) of
                           Inl e \<Rightarrow> (Some e, st2)
                         | Inr v \<Rightarrow>
                             (None, st2\<lparr>valueObjects := (valueObjects st2)
                                (newVariables st2 := assign (valueObjects st2 (newVariables st2)) varName v)\<rparr>))))
      else (None, st))"

fun forEachArgument :: "nat \<Rightarrow> GraphQLArgument list \<Rightarrow> tstate \<Rightarrow> js_error option \<times> tstate" where
  "forEachArgument argsRef [] st = (None, st)"
| "forEachArgument argsRef (argument # rest) st =
     (case injectArgument argsRef argument st of
        (Some e, st1) \<Rightarrow> (Some e, st1)
      | (None, st1) \<Rightarrow> forEachArgument argsRef rest st1)"

text \<open>
  The body of \<^verbatim>\<open>operation.selectionSet.selections.forEach\<close>. \<open>rootType\<close> is the
  \<^verbatim>\<open>type\<close> of the operation, \<open>None\<close> when the schema has no such root type;
  \<^verbatim>\<open>type.getFields()[name]\<close> and \<^verbatim>\<open>field.args\<close> raise a TypeError when the type or
  the field is missing.
\<close>

definition rewriteSelection ::
  "GraphQLObjectType option \<Rightarrow> nat \<Rightarrow> SelectionNode \<Rightarrow> tstate \<Rightarrow> js_error option \<times> tstate" where
  "rewriteSelection rootType argsRef selection st =
     (case selection of
        FieldNode name arguments rest \<Rightarrow>
          (let st1 = st\<lparr>newArgs := foldl (\<lambda>acc argument. assign acc (argName argument) argument) [] arguments\<rparr>
           in case rootType of
                None \<Rightarrow> (Some TypeError, st1)
              | Some fieldTable \<Rightarrow>
                  (case map_of fieldTable name of
                     None \<Rightarrow> (Some TypeError, st1)
                   | Some field \<Rightarrow>
                       (case forEachArgument argsRef (fieldArgs field) st1 of
                          (Some e, st2) \<Rightarrow> (Some e, st2)
                        | (None, st2) \<Rightarrow>
                            (None, pushSelection (FieldNode name (map snd (newArgs st2)) rest) st2))))
      | OtherSelection other \<Rightarrow> (None, pushSelection selection st))"

fun forEachSelection ::
  "GraphQLObjectType option \<Rightarrow> nat \<Rightarrow> SelectionNode list \<Rightarrow> tstate \<Rightarrow> js_error option \<times> tstate" where
  "forEachSelection rootType argsRef [] st = (None, st)"
| "forEachSelection rootType argsRef (selection # rest) st =
     (case rewriteSelection rootType argsRef selection st of
        (Some e, st1) \<Rightarrow> (Some e, st1)
      | (None, st1) \<Rightarrow> forEachSelection rootType argsRef rest st1)"

text \<open>
  The function that \<^verbatim>\<open>operations.map\<close> applies to an operation. The new operation
  refers to the \<^verbatim>\<open>newSelectionSet\<close> array itself.
\<close>

definition addVariablesToOperation ::
  "GraphQLSchema \<Rightarrow> nat \<Rightarrow> OperationDefinitionNode \<Rightarrow> tstate \<Rightarrow>
   (js_error + OperationDefinitionNode) \<times> tstate" where
  "addVariablesToOperation targetSchema argsRef opn st =
     (let st1 = st\<lparr>existingVariables := map variableName (variableDefinitions opn),
                    variableCounter := 0,
                    operationVariables := [],
                    newSelectionSet := nextSelectionArray st,
                    selectionArrays := (selectionArrays st)(nextSelectionArray st := []),
                    nextSelectionArray := Suc (nextSelectionArray st)\<rparr>;
          rootType = (case operation opn of
                        Subscription \<Rightarrow> subscriptionType targetSchema
                      | Mutation \<Rightarrow> mutationType targetSchema
                      | Query \<Rightarrow> queryType targetSchema)
      in case forEachSelection rootType argsRef (selectionArrays st1 (selections opn)) st1 of
           (Some e, st2) \<Rightarrow> (Inl e, st2)
         | (None, st2) \<Rightarrow>
             (Inr (opn\<lparr>variableDefinitions :=
                          variableDefinitions opn @ map snd (operationVariables st2),
                        selections := newSelectionSet st2\<rparr>),
              st2))"

fun mapOperations ::
  "GraphQLSchema \<Rightarrow> nat \<Rightarrow> OperationDefinitionNode list \<Rightarrow> tstate \<Rightarrow>
   (js_error + OperationDefinitionNode list) \<times> tstate" where
  "mapOperations targetSchema argsRef [] st = (Inr [], st)"
| "mapOperations targetSchema argsRef (opn # rest) st =
     (case addVariablesToOperation targetSchema argsRef opn st of
        (Inl e, st1) \<Rightarrow> (Inl e, st1)
      | (Inr opn', st1) \<Rightarrow>
          (case mapOperations targetSchema argsRef rest st1 of
             (Inl e, st2) \<Rightarrow> (Inl e, st2)
           | (Inr rest', st2) \<Rightarrow> (Inr (opn' # rest'), st2)))"

text \<open>The two \<^verbatim>\<open>document.definitions.filter\<close> calls.\<close>

fun operationsOf :: "DefinitionNode list \<Rightarrow> OperationDefinitionNode list" where
  "operationsOf [] = []"
| "operationsOf (OperationDefinition opn # rest) = opn # operationsOf rest"
| "operationsOf (d # rest) = operationsOf rest"

fun fragmentsOf :: "DefinitionNode list \<Rightarrow> DefinitionNode list" where
  "fragmentsOf [] = []"
| "fragmentsOf (FragmentDefinition f # rest) = FragmentDefinition f # fragmentsOf rest"
| "fragmentsOf (d # rest) = fragmentsOf rest"

text \<open>
  \<^verbatim>\<open>addVariablesToRootField(targetSchema, document, args)\<close>; it returns the new
  document and the \<^verbatim>\<open>newVariables\<close> object.
\<close>

definition addVariablesToRootField ::
  "GraphQLSchema \<Rightarrow> DocumentNode \<Rightarrow> nat \<Rightarrow> tstate \<Rightarrow> (js_error + DocumentNode \<times> nat) \<times> tstate" where
  "addVariablesToRootField targetSchema doc argsRef st =
     (let st1 = st\<lparr>variableNames := [],
                    newVariables := nextValueObject st,
                    valueObjects := (valueObjects st)(nextValueObject st := []),
                    nextValueObject := Suc (nextValueObject st)\<rparr>
      in case mapOperations targetSchema argsRef (operationsOf (definitions doc)) st1 of
           (Inl e, st2) \<Rightarrow> (Inl e, st2)
         | (Inr newOperations, st2) \<Rightarrow>
             (Inr (doc\<lparr>definitions :=
                          map OperationDefinition newOperations @ fragmentsOf (definitions doc)\<rparr>,
                   newVariables st2),
              st2))"

text \<open>\<^verbatim>\<open>{ ...a, ...b }\<close>: the properties of \<open>a\<close>, then those of \<open>b\<close>, assigned to a new object.\<close>

definition spread :: "(string \<times> argval) list \<Rightarrow> (string \<times> argval) list \<Rightarrow> (string \<times> argval) list" where
  "spread a b = foldl (\<lambda>acc (k, v). assign acc k v) (foldl (\<lambda>acc (k, v). assign acc k v) [] a) b"

text \<open>\<^verbatim>\<open>AddArgumentsAsVariablesTransform.transformRequest(originalRequest)\<close>\<close>

definition transformRequest ::
  "AddArgumentsAsVariablesTransform \<Rightarrow> Request \<Rightarrow> tstate \<Rightarrow> (js_error + Request) \<times> tstate" where
  "transformRequest transform originalRequest st =
     (case addVariablesToRootField (schema transform) (document originalRequest) (args transform) st of
        (Inl e, st1) \<Rightarrow> (Inl e, st1)
      | (Inr (doc, newVars), st1) \<Rightarrow>
          (Inr \<lparr>document = doc, variables = nextValueObject st1\<rparr>,
           st1\<lparr>valueObjects := (valueObjects st1)
                  (nextValueObject st1 :=
                     spread (valueObjects st1 (variables originalRequest)) (valueObjects st1 newVars)),
               nextValueObject := Suc (nextValueObject st1)\<rparr>))"

subsection \<open>Invariant of the generated names\<close>

text \<open>
  Between two injections, \<^verbatim>\<open>existingVariables\<close> is the list of the names declared on
  the operation followed by the keys of \<^verbatim>\<open>variables\<close>; these keys are distinct, none of
  them is a declared name, and each is the name of the definition stored under it.
\<close>

definition namesInvariant :: "string list \<Rightarrow> tstate \<Rightarrow> bool" where
  "namesInvariant old st =
     (existingVariables st = old @ map fst (operationVariables st) \<and>
      distinct (map fst (operationVariables st)) \<and>
      set (map fst (operationVariables st)) \<inter> set old = {} \<and>
      map (\<lambda>entry. variableName (snd entry)) (operationVariables st) = map fst (operationVariables st))"

subsection \<open>Example request\<close>

definition exampleSchema :: GraphQLSchema where
  "exampleSchema =
     \<lparr>queryType = Some [(''items'',
         \<lparr>fieldArgs = [\<lparr>argumentName = ''limit'', argumentType = GraphQLScalarType ''Int''\<rparr>,
                       \<lparr>argumentName = ''after'', argumentType = GraphQLScalarType ''ID''\<rparr>]\<rparr>)],
      mutationType = None, subscriptionType = None\<rparr>"

definition exampleOperation :: OperationDefinitionNode where
  "exampleOperation =
     \<lparr>operation = Query,
      variableDefinitions = [\<lparr>variableName = ''_v0_limit'', variableType = NamedType ''Int'', variableRest = []\<rparr>],
      selections = 0,
      operationRest = ''query Q''\<rparr>"

definition exampleState :: tstate where
  "exampleState =
     \<lparr>selectionArrays = (\<lambda>_. [])
        (0 := [FieldNode ''items'' [\<lparr>argName = ''limit'', argValue = VariableNode ''_v0_limit''\<rparr>] ''{ id }'',
               OtherSelection ''...F'',
               FieldNode ''items'' [] ''{ name }'']),
      nextSelectionArray = 1,
      valueObjects = (\<lambda>_. [])(0 := [(''limit'', ANum 5)], 1 := [(''_v0_limit'', ANum 3)]),
      nextValueObject = 2,
      variableNames = [], newVariables = 0, existingVariables = [], variableCounter = 0,
      operationVariables = [], newSelectionSet = 0, newArgs = []\<rparr>"

definition exampleRequest :: Request where
  "exampleRequest =
     \<lparr>document = \<lparr>definitions = [OperationDefinition exampleOperation, FragmentDefinition ''fragment F''],
                   documentRest = []\<rparr>,
      variables = 1\<rparr>"

definition exampleTransform :: AddArgumentsAsVariablesTransform where
  "exampleTransform = \<lparr>schema = exampleSchema, args = 0\<rparr>"

section \<open>Properties of the result tagging\<close>

subsection \<open>Relocation\<close>

lemmas error_properties = nodes_def source_def positions_def normalizeNodes_def sourceOfNodes_def
  positionsOfNodes_def normalizePositions_def

lemma extensions_copy: "extensions (GraphQLError m n s po p (originalError e) (extensions e)) = extensions e"
  by (cases e) (simp add: extensions.simps split: option.splits)

lemma nodes_copy [simp]: "normalizeNodes (nodes e) = nodes e"
  by (simp add: nodes_def normalizeNodes_def split: option.splits list.splits)

lemma normalizePositions_idem [simp]: "normalizePositions (normalizePositions ps) = normalizePositions ps"
  by (simp add: normalizePositions_def split: option.splits list.splits)

lemma positions_copy:
  "positions e = Some ps \<Longrightarrow> normalizePositions (Some ps) = Some ps"
  by (auto simp: positions_def normalizePositions_def split: option.splits list.splits)

lemma relocatedError_extensions: "extensions (relocatedError e fb np) = extensions e"
  by (cases e) (simp add: relocatedError_def extensions.simps split: option.splits)

lemma relocatedError_message: "message (relocatedError e fb np) = message e"
  by (simp add: relocatedError_def)

lemma relocatedError_path: "path (relocatedError e fb (Some p)) = Some p"
  by (simp add: relocatedError_def)

lemma relocatedError_nodes:
  "nodes (relocatedError e fb np) =
     (if path e = None \<and> nodes e = None then normalizeNodes fb else nodes e)"
proof (cases "path e")
  case (Some p)
  then show ?thesis
    by (simp add: relocatedError_def nodes_def [of "GraphQLError m n s po q orig x" for m n s po q orig x])
next
  case None
  show ?thesis
  proof (cases "nodes e")
    case None
    with \<open>path e = None\<close> show ?thesis
      by (simp add: relocatedError_def nodes_def [of "GraphQLError m n s po q orig x" for m n s po q orig x])
  next
    case (Some ns)
    with nodes_copy [of e] have "normalizeNodes (Some ns) = Some ns" by simp
    with Some \<open>path e = None\<close> show ?thesis
      by (simp add: relocatedError_def nodes_def [of "GraphQLError m n s po q orig x" for m n s po q orig x])
  qed
qed

lemma relocatedError_source:
  "source (relocatedError e fb np) =
     (case source e of Some src \<Rightarrow> Some src | None \<Rightarrow> sourceOfNodes (nodes (relocatedError e fb np)))"
  by (simp add: relocatedError_def source_def [of "GraphQLError m n s po p orig x" for m n s po p orig x]
      split: option.splits)

lemma relocatedError_positions:
  "positions (relocatedError e fb np) =
     (case positions e of
        Some ps \<Rightarrow> Some ps
      | None \<Rightarrow> normalizePositions (positionsOfNodes (nodes (relocatedError e fb np))))"
  by (auto simp: relocatedError_def positions_copy
      positions_def [of "GraphQLError m n s po p orig x" for m n s po p orig x]
      split: option.splits)

lemma source_absent: "source e = None \<Longrightarrow> sourceOfNodes (nodes e) = None"
  by (simp add: source_def split: option.splits)

lemma positions_absent:
  "positions e = None \<Longrightarrow> passedPositions e = None \<Longrightarrow>
   normalizePositions (positionsOfNodes (nodes e)) = None"
  by (simp add: positions_def)

lemma relocateBelow_path: "path (relocateBelow e) = map_option (drop 1) (path e)"
  by (cases "path e") (simp_all add: relocateBelow_def relocatedError_def)

lemma relocateBelow_message: "message (relocateBelow e) = message e"
  by (simp add: relocateBelow_def relocatedError_message)

text \<open>
  Claim C6, as the claim states it, fails: the source and the positions of the original
  are not always those of the new error. A plain error has neither nodes nor a source nor
  positions; relocated with fallback nodes that have a location, the new error has the
  source and the position of that location.
\<close>

theorem relocatedError_derives_location:
  "source examplePlain = None \<and> positions examplePlain = None \<and>
   source (relocatedError examplePlain (Some exampleNodes) (Some [Name ''a''])) = Some ''{ b }'' \<and>
   positions (relocatedError examplePlain (Some exampleNodes) (Some [Name ''a''])) = Some [4]"
  by (simp add: relocatedError_def examplePlain_def exampleNodes_def error_properties)

text \<open>
  Claim C6, amended. \<^verbatim>\<open>relocatedError\<close> returns a new error object: it is written to a
  fresh address, and every error object already in the store, the original among them, is
  left as it was. The new error has the message and the extensions of the original and the
  new path. Its nodes are the nodes of the original; when the original has neither a path
  nor nodes, they are the fallback nodes (none when the fallback is empty). It has the
  source and the positions of the original where the original has them; a source or
  positions that the original lacks are those the constructor derives from the nodes of
  the new error. So the source is preserved whenever the original has a path or nodes, and
  the positions are preserved whenever the original has positions, or has a path or nodes
  and was built without a positions argument; with fallback nodes in use, a missing
  source and missing positions come from the fallback nodes.
\<close>

theorem relocatedError_preserves:
  assumes "a < length errorStore"
  shows "case relocatedErrorAt errorStore a fallbackNodes (Some newPath) of
           (errorStore', b) \<Rightarrow>
             b \<noteq> a \<and> b < length errorStore' \<and>
             (\<forall>i < length errorStore. errorStore' ! i = errorStore ! i) \<and>
             message (errorStore' ! b) = message (errorStore ! a) \<and>
             extensions (errorStore' ! b) = extensions (errorStore ! a) \<and>
             path (errorStore' ! b) = Some newPath \<and>
             nodes (errorStore' ! b) =
               (if path (errorStore ! a) = None \<and> nodes (errorStore ! a) = None
                then normalizeNodes fallbackNodes else nodes (errorStore ! a)) \<and>
             source (errorStore' ! b) =
               (case source (errorStore ! a) of
                  Some src \<Rightarrow> Some src
                | None \<Rightarrow> sourceOfNodes (nodes (errorStore' ! b))) \<and>
             positions (errorStore' ! b) =
               (case positions (errorStore ! a) of
                  Some ps \<Rightarrow> Some ps
                | None \<Rightarrow> normalizePositions (positionsOfNodes (nodes (errorStore' ! b)))) \<and>
             (path (errorStore ! a) \<noteq> None \<or> nodes (errorStore ! a) \<noteq> None \<longrightarrow>
                source (errorStore' ! b) = source (errorStore ! a)) \<and>
             (positions (errorStore ! a) \<noteq> None \<or>
              (path (errorStore ! a) \<noteq> None \<or> nodes (errorStore ! a) \<noteq> None) \<and>
                passedPositions (errorStore ! a) = None \<longrightarrow>
                positions (errorStore' ! b) = positions (errorStore ! a))"
proof -
  let ?e = "errorStore ! a"
  let ?r = "relocatedError ?e fallbackNodes (Some newPath)"
  have n: "nodes ?r = (if path ?e = None \<and> nodes ?e = None then normalizeNodes fallbackNodes else nodes ?e)"
    by (rule relocatedError_nodes)
  have s: "source ?r = (case source ?e of Some src \<Rightarrow> Some src | None \<Rightarrow> sourceOfNodes (nodes ?r))"
    by (rule relocatedError_source)
  have p: "positions ?r =
      (case positions ?e of Some ps \<Rightarrow> Some ps | None \<Rightarrow> normalizePositions (positionsOfNodes (nodes ?r)))"
    by (rule relocatedError_positions)
  have s': "path ?e \<noteq> None \<or> nodes ?e \<noteq> None \<longrightarrow> source ?r = source ?e"
  proof
    assume "path ?e \<noteq> None \<or> nodes ?e \<noteq> None"
    with n have "nodes ?r = nodes ?e" by auto
    with s source_absent [of ?e] show "source ?r = source ?e"
      by (cases "source ?e") simp_all
  qed
  have p': "positions ?e \<noteq> None \<or>
      (path ?e \<noteq> None \<or> nodes ?e \<noteq> None) \<and> passedPositions ?e = None \<longrightarrow>
      positions ?r = positions ?e"
  proof
    assume h: "positions ?e \<noteq> None \<or>
      (path ?e \<noteq> None \<or> nodes ?e \<noteq> None) \<and> passedPositions ?e = None"
    show "positions ?r = positions ?e"
    proof (cases "positions ?e")
      case (Some ps)
      with p show ?thesis by simp
    next
      case None
      with h have k: "path ?e \<noteq> None \<or> nodes ?e \<noteq> None" and pp: "passedPositions ?e = None"
        by auto
      from k n have "nodes ?r = nodes ?e" by auto
      with p None positions_absent [OF None pp] show ?thesis by simp
    qed
  qed
  have m: "message ?r = message ?e" and x: "extensions ?r = extensions ?e"
    and pa: "path ?r = Some newPath"
    by (rule relocatedError_message, rule relocatedError_extensions, rule relocatedError_path)
  have eq: "relocatedErrorAt errorStore a fallbackNodes (Some newPath) =
      (errorStore @ [?r], length errorStore)"
    by (simp add: relocatedErrorAt_def)
  have nth: "(errorStore @ [?r]) ! length errorStore = ?r" by simp
  have old: "\<forall>i < length errorStore. (errorStore @ [?r]) ! i = errorStore ! i"
    by (simp add: nth_append)
  have f1: "length errorStore \<noteq> a" using assms by simp
  have f2: "length errorStore < length (errorStore @ [?r])" by simp
  from f1 f2 old m x pa n s p s' p' show ?thesis
    unfolding eq prod.case nth by blast
qed

theorem relocatedError_preserves_witness:
  "(0::nat) < length [exampleErr, examplePlain] \<and>
   snd (relocatedErrorAt [exampleErr, examplePlain] 0 (Some exampleNodes) (Some [Name ''a''])) = 2 \<and>
   fst (relocatedErrorAt [exampleErr, examplePlain] 0 (Some exampleNodes) (Some [Name ''a''])) ! 0 = exampleErr \<and>
   fst (relocatedErrorAt [exampleErr, examplePlain] 0 (Some exampleNodes) (Some [Name ''a''])) ! 2 =
     GraphQLError ''boom'' (Some [ASTNode (Some (Location 2 ''{ a }''))]) (Some ''{ a }'') (Some [2])
       (Some [Name ''a'']) None (Some [(''code'', ''E1'')]) \<and>
   (1::nat) < length [exampleErr, examplePlain] \<and>
   nodes (fst (relocatedErrorAt [exampleErr, examplePlain] 1 (Some exampleNodes) (Some [Name ''a''])) ! 2)
     = Some exampleNodes \<and>
   extensions (fst (relocatedErrorAt [exampleErr, examplePlain] 1 (Some exampleNodes) (Some [Name ''a''])) ! 2)
     = Some [(''code'', ''E0'')]"
  using relocatedError_preserves [where a = 0 and errorStore = "[exampleErr, examplePlain]"
      and fallbackNodes = "Some exampleNodes" and newPath = "[Name ''a'']"]
    relocatedError_preserves [where a = 1 and errorStore = "[exampleErr, examplePlain]"
      and fallbackNodes = "Some exampleNodes" and newPath = "[Name ''a'']"]
  by (simp add: relocatedErrorAt_def relocatedError_def exampleErr_def examplePlain_def
      exampleNodes_def extensions.simps error_properties)

subsection \<open>Combining errors\<close>

lemma joinLines_Cons: "joinLines (m # ms) = m @ concat (map (\<lambda>s. CHR 0x0A # s) ms)"
  by (induction ms arbitrary: m) simp_all

text \<open>
  Claim C8. \<^verbatim>\<open>combineErrors\<close> of a list with one error is a copy of that error, with
  the same message, path and extensions. For two errors the result is the aggregate whose
  message is the first message, a newline and the second message, and whose member list
  is the list itself; for any list of more than one error the message is the newline join
  of the messages in order and the member list is the list itself.
\<close>

theorem combineErrors_copy_or_aggregate:
  "(\<exists>c. combineErrors [e] = Single c \<and> message c = message e \<and> path c = path e \<and>
        extensions c = extensions e) \<and>
   combineErrors [e1, e2] = CombinedError (message e1 @ [CHR 0x0A] @ message e2) [e1, e2] \<and>
   (1 < length errors \<longrightarrow>
      combineErrors errors =
        CombinedError (message (hd errors) @ concat (map (\<lambda>e. CHR 0x0A # message e) (tl errors))) errors)"
proof -
  have one: "\<exists>c. combineErrors [e] = Single c \<and> message c = message e \<and> path c = path e \<and>
        extensions c = extensions e"
    by (simp add: combineErrors_def extensions_copy)
  have two: "combineErrors [e1, e2] = CombinedError (message e1 @ [CHR 0x0A] @ message e2) [e1, e2]"
    by (simp add: combineErrors_def)
  have many: "1 < length errors \<longrightarrow>
      combineErrors errors =
        CombinedError (message (hd errors) @ concat (map (\<lambda>e. CHR 0x0A # message e) (tl errors))) errors"
  proof
    assume "1 < length errors"
    then obtain x y zs where errs: "errors = x # y # zs"
      by (cases errors; cases "tl errors") auto
    show "combineErrors errors =
        CombinedError (message (hd errors) @ concat (map (\<lambda>e. CHR 0x0A # message e) (tl errors))) errors"
      unfolding errs combineErrors_def
      by (simp add: joinLines_Cons comp_def del: joinLines.simps)
  qed
  from one two many show ?thesis by blast
qed

theorem combineErrors_copy_or_aggregate_witness:
  "combineErrors [exampleErr] = Single exampleErr \<and>
   (1::nat) < length [exampleErr, examplePlain, exampleErr] \<and>
   combineErrors [exampleErr, examplePlain, exampleErr] =
     CombinedError (''boom'' @ [CHR 0x0A] @ ''plain'' @ [CHR 0x0A] @ ''boom'')
       [exampleErr, examplePlain, exampleErr]"
  using combineErrors_copy_or_aggregate [where errors = "[exampleErr, examplePlain, exampleErr]"]
  by (simp add: combineErrors_def exampleErr_def examplePlain_def extensions.simps error_properties)

subsection \<open>Tagging an object, tagging null\<close>

text \<open>
  Claim C10. For an object \<open>v\<close>, \<^verbatim>\<open>createMergedResult\<close> returns the reference
  \<open>v\<close> itself and changes the object in place: the relocated errors and the subschemas
  are stored under the two tag keys, the string-keyed properties and the null marker keep
  their values, no other object changes and no object is allocated.
\<close>

theorem createMergedResult_object_in_place:
  "\<exists>st'. createMergedResult st (JObject a) errors subschemas = Inr (st', JObject a) \<and>
     properties (objects st' a) = properties (objects st a) \<and>
     mergedNull (objects st' a) = mergedNull (objects st a) \<and>
     errorsTag (objects st' a) = Some (map relocateBelow errors) \<and>
     subschemasTag (objects st' a) = Some subschemas \<and>
     (\<forall>b. b \<noteq> a \<longrightarrow> objects st' b = objects st b) \<and>
     fresh st' = fresh st"
  by (simp add: tagObject_def)

theorem createMergedResult_object_in_place_witness:
  "\<exists>st'. createMergedResult exampleStore (JObject 0) [errRAB] [''remote''] = Inr (st', JObject 0) \<and>
     properties (objects st' 0) = [(''a'', JObject 1), (''c'', JNum 5)] \<and>
     errorsTag (objects st' 0) =
       Some [GraphQLError ''first'' None None None (Some [Name ''a'', Name ''b'']) None None] \<and>
     subschemasTag (objects st' 0) = Some [''remote''] \<and>
     objects st' 1 = objects exampleStore 1 \<and> fresh st' = 2"
  using createMergedResult_object_in_place [where st = exampleStore and a = 0
      and errors = "[errRAB]" and subschemas = "[''remote'']"]
  by (simp add: tagObject_def exampleStore_def errRAB_def relocateBelow_def relocatedError_def
      extensions.simps error_properties emptyObject_def)

text \<open>
  Claim C4, as the claim states it, fails: what \<^verbatim>\<open>getErrorsFromParent\<close> reads back is
  not the attached list. Tagging \<^verbatim>\<open>null\<close> with the one error of path
  \<^verbatim>\<open>["c"]\<close> attaches that error with the empty path, and the accessor returns the
  empty list for every field name.
\<close>

theorem createMergedResult_null_accessor_filters:
  "\<exists>st'. createMergedResult exampleStore JNull [errC] [''remote''] = Inr (st', JObject 2) \<and>
     errorsTag (objects st' 2) = Some [GraphQLError ''second'' None None None (Some []) None None] \<and>
     (\<forall>fieldName. getErrorsFromParent st' (JObject 2) fieldName = Some [])"
  by (simp add: tagObject_def allocObject_def exampleStore_def errC_def
      relocateBelow_def relocatedError_def errorConcernsField_def extensions.simps error_properties
      emptyObject_def)

text \<open>
  Claim C4, amended. For every list of errors \<open>es\<close>, the non-empty ones included,
  \<^verbatim>\<open>createMergedResult(null, es, ss)\<close> returns a reference to a new object, not
  \<^verbatim>\<open>null\<close>: the object carries the null marker and no property, and its error tag
  is \<open>es\<close> with every error relocated by dropping the leading segment of its path (an
  error without a path stays without one). \<^verbatim>\<open>getErrorsFromParent\<close> reads a list from
  it, never the value for a missing tag: for a field name, the relocated errors that have
  no path or whose relocated path starts with the field name, in order. This is the whole
  attached list when no error of \<open>es\<close> has a path.
\<close>

theorem createMergedResult_null_sentinel:
  "\<exists>st'. createMergedResult st JNull errors subschemas = Inr (st', JObject (fresh st)) \<and>
     mergedNull (objects st' (fresh st)) \<and>
     properties (objects st' (fresh st)) = [] \<and>
     errorsTag (objects st' (fresh st)) = Some (map relocateBelow errors) \<and>
     map path (map relocateBelow errors) = map (\<lambda>e. map_option (drop 1) (path e)) errors \<and>
     subschemasTag (objects st' (fresh st)) = Some subschemas \<and>
     (\<forall>fieldName. getErrorsFromParent st' (JObject (fresh st)) fieldName =
        Some (filter (\<lambda>e. path e = None \<or> (\<exists>rest. path e = Some (Name fieldName # rest)))
                (map relocateBelow errors))) \<and>
     ((\<forall>e \<in> set errors. path e = None) \<longrightarrow>
        (\<forall>fieldName. getErrorsFromParent st' (JObject (fresh st)) fieldName =
           Some (map relocateBelow errors))) \<and>
     (\<forall>b. b \<noteq> fresh st \<longrightarrow> objects st' b = objects st b)"
proof -
  have p: "\<And>fieldName. errorConcernsField fieldName =
      (\<lambda>e. path e = None \<or> (\<exists>rest. path e = Some (Name fieldName # rest)))"
    by (rule ext) (auto simp: errorConcernsField_def split: option.splits list.splits)
  have w: "(\<forall>e \<in> set errors. path e = None) \<longrightarrow>
      (\<forall>fieldName. filter (errorConcernsField fieldName) (map relocateBelow errors) =
         map relocateBelow errors)"
    by (auto simp: errorConcernsField_def relocateBelow_path filter_id_conv)
  from w show ?thesis
    by (simp add: tagObject_def allocObject_def emptyObject_def relocateBelow_path p [symmetric])
qed

theorem createMergedResult_null_sentinel_witness:
  "\<exists>st'. createMergedResult exampleStore JNull [errRC, errNoPath] [''remote''] = Inr (st', JObject 2) \<and>
     mergedNull (objects st' 2) \<and>
     errorsTag (objects st' 2) =
       Some [GraphQLError ''second'' None None None (Some [Name ''c'']) None None,
             GraphQLError ''no path'' None None None None (Some errNoPath) None] \<and>
     getErrorsFromParent st' (JObject 2) ''c'' =
       Some [GraphQLError ''second'' None None None (Some [Name ''c'']) None None,
             GraphQLError ''no path'' None None None None (Some errNoPath) None] \<and>
     getErrorsFromParent st' (JObject 2) ''a'' =
       Some [GraphQLError ''no path'' None None None None (Some errNoPath) None] \<and>
     objects st' 0 = objects exampleStore 0 \<and>
     (\<exists>st''. createMergedResult exampleStore JNull [errNoPath] [''remote''] = Inr (st'', JObject 2) \<and>
        path errNoPath = None \<and>
        getErrorsFromParent st'' (JObject 2) ''a'' =
          Some [GraphQLError ''no path'' None None None None (Some errNoPath) None])"
  using createMergedResult_null_sentinel [where st = exampleStore
      and errors = "[errRC, errNoPath]" and subschemas = "[''remote'']"]
    createMergedResult_null_sentinel [where st = exampleStore
      and errors = "[errNoPath]" and subschemas = "[''remote'']"]
  by (simp add: tagObject_def allocObject_def exampleStore_def errRC_def errNoPath_def
      relocateBelow_def relocatedError_def errorConcernsField_def extensions.simps error_properties
      emptyObject_def)

subsection \<open>Reading the errors of a field\<close>

text \<open>
  Claim C5, as the claim states it, fails: an attached error whose path is present and
  empty is not returned. Tagging \<^verbatim>\<open>null\<close> with an error of path \<^verbatim>\<open>["c"]\<close>
  attaches that error with the empty path, and reading the errors of \<^verbatim>\<open>c\<close> gives
  the empty list.
\<close>

theorem getErrorsFromParent_skips_empty_path:
  "\<exists>st'. createMergedResult exampleStore JNull [errC] [] = Inr (st', JObject 2) \<and>
     errorsTag (objects st' 2) = Some [GraphQLError ''second'' None None None (Some []) None None] \<and>
     getErrorsFromParent st' (JObject 2) ''c'' = Some []"
  by (simp add: tagObject_def allocObject_def exampleStore_def errC_def
      relocateBelow_def relocatedError_def errorConcernsField_def extensions.simps error_properties emptyObject_def)

text \<open>
  Claim C5, amended. \<^verbatim>\<open>getErrorsFromParent\<close> returns, in order, the attached errors
  that have no path at all or whose path starts with the field name; an error whose path is
  present and empty is not among them. For an object without an error tag, and for a
  value that is no object, it returns the value for a missing tag, which differs from the
  empty list.
\<close>

theorem getErrorsFromParent_subset:
  "(errorsTag (objects st a) = Some errors \<longrightarrow>
      getErrorsFromParent st (JObject a) fieldName =
        Some (filter (\<lambda>e. path e = None \<or> (\<exists>rest. path e = Some (Name fieldName # rest))) errors)) \<and>
   (errorsTag (objects st a) = None \<longrightarrow> getErrorsFromParent st (JObject a) fieldName = None) \<and>
   ((\<forall>b. v \<noteq> JObject b) \<longrightarrow> getErrorsFromParent st v fieldName = None) \<and>
   (None :: GraphQLError list option) \<noteq> Some []"
proof -
  have p: "errorConcernsField fieldName = (\<lambda>e. path e = None \<or> (\<exists>rest. path e = Some (Name fieldName # rest)))"
    by (rule ext) (auto simp: errorConcernsField_def split: option.splits list.splits)
  have "(\<forall>b. v \<noteq> JObject b) \<longrightarrow> getErrorsFromParent st v fieldName = None"
    by (cases v) simp_all
  with p show ?thesis by simp
qed

theorem getErrorsFromParent_subset_witness:
  "errorsTag (objects exampleTagged 0) = Some [errAB, errNoPath, errC] \<and>
   getErrorsFromParent exampleTagged (JObject 0) ''a'' = Some [errAB, errNoPath] \<and>
   errorsTag (objects exampleTagged 1) = None \<and>
   getErrorsFromParent exampleTagged (JObject 1) ''a'' = None \<and>
   getErrorsFromParent exampleTagged (JNum 3) ''a'' = None"
  using getErrorsFromParent_subset [where st = exampleTagged and a = 0 and fieldName = "''a''"
      and errors = "[errAB, errNoPath, errC]" and v = "JNum 3"]
    getErrorsFromParent_subset [where st = exampleTagged and a = 1 and fieldName = "''a''"]
  by (simp add: exampleTagged_def errAB_def errNoPath_def errC_def emptyObject_def)

subsection \<open>Errors of the fields of an object\<close>

text \<open>
  Claim C1, as the claim states it, fails. \<^verbatim>\<open>createMergedResult\<close> drops the leading
  segment of every path, so after tagging the result with errors of paths
  \<^verbatim>\<open>["a", "b"]\<close> and \<^verbatim>\<open>["c"]\<close> the attached paths are \<^verbatim>\<open>["b"]\<close> and
  the empty path: nothing is read for \<^verbatim>\<open>a\<close> and for \<^verbatim>\<open>c\<close>, and the first
  error is read for \<^verbatim>\<open>b\<close>.
\<close>

theorem createMergedResult_no_field_partition:
  "\<exists>st'. createMergedResult exampleStore (JObject 0) [errAB, errC] [] = Inr (st', JObject 0) \<and>
     getErrorsFromParent st' (JObject 0) ''a'' = Some [] \<and>
     getErrorsFromParent st' (JObject 0) ''c'' = Some [] \<and>
     getErrorsFromParent st' (JObject 0) ''b'' =
       Some [GraphQLError ''first'' None None None (Some [Name ''b'']) None None]"
  by (simp add: tagObject_def exampleStore_def errAB_def errC_def relocateBelow_def
      relocatedError_def errorConcernsField_def extensions.simps error_properties)

text \<open>
  Claim C1, amended. The paths of the errors passed to \<^verbatim>\<open>createMergedResult\<close>
  lead with the key \<open>r\<close> of the result itself: for an object and two errors of paths
  \<open>[r, a, b]\<close> and \<open>[r, c]\<close> with \<open>a \<noteq> c\<close>, tagging the object and reading the errors
  per field gives exactly the first error for \<open>a\<close>, relocated to \<open>[a, b]\<close>, exactly the
  second for \<open>c\<close>, relocated to \<open>[c]\<close>, and no error for any other field. Tagging the
  object of field \<open>a\<close> with the errors read for \<open>a\<close> attaches exactly the first error,
  relocated to \<open>[b]\<close>; tagging an object of field \<open>c\<close> with the errors read for \<open>c\<close>
  attaches exactly the second, relocated to the empty path.
\<close>

theorem createMergedResult_partitions_by_field:
  assumes "path e1 = Some [r, Name a, b]" and "path e2 = Some [r, Name c]" and "a \<noteq> c"
  shows "\<exists>st1. createMergedResult st (JObject p) [e1, e2] ss = Inr (st1, JObject p) \<and>
     getErrorsFromParent st1 (JObject p) a = Some [relocateBelow e1] \<and>
     path (relocateBelow e1) = Some [Name a, b] \<and>
     getErrorsFromParent st1 (JObject p) c = Some [relocateBelow e2] \<and>
     path (relocateBelow e2) = Some [Name c] \<and>
     (\<forall>f. f \<noteq> a \<and> f \<noteq> c \<longrightarrow> getErrorsFromParent st1 (JObject p) f = Some []) \<and>
     (\<exists>st2. createMergedResult st1 (JObject q) [relocateBelow e1] ss = Inr (st2, JObject q) \<and>
        errorsTag (objects st2 q) = Some [relocateBelow (relocateBelow e1)]) \<and>
     path (relocateBelow (relocateBelow e1)) = Some [b] \<and>
     message (relocateBelow (relocateBelow e1)) = message e1 \<and>
     (\<exists>st3. createMergedResult st1 (JObject q') [relocateBelow e2] ss = Inr (st3, JObject q') \<and>
        errorsTag (objects st3 q') = Some [relocateBelow (relocateBelow e2)]) \<and>
     path (relocateBelow (relocateBelow e2)) = Some [] \<and>
     message (relocateBelow (relocateBelow e2)) = message e2"
  using assms
  by (simp add: tagObject_def relocateBelow_path relocateBelow_message errorConcernsField_def)

theorem createMergedResult_partitions_by_field_witness:
  "path errRAB = Some [Name ''r'', Name ''a'', Name ''b''] \<and>
   path errRC = Some [Name ''r'', Name ''c''] \<and> ''a'' \<noteq> ''c'' \<and>
   (\<exists>st1. createMergedResult exampleStore (JObject 0) [errRAB, errRC] [''remote''] = Inr (st1, JObject 0) \<and>
      getErrorsFromParent st1 (JObject 0) ''a'' =
        Some [GraphQLError ''first'' None None None (Some [Name ''a'', Name ''b'']) None None] \<and>
      getErrorsFromParent st1 (JObject 0) ''c'' =
        Some [GraphQLError ''second'' None None None (Some [Name ''c'']) None None] \<and>
      getErrorsFromParent st1 (JObject 0) ''b'' = Some [] \<and>
      (\<exists>st2. createMergedResult st1 (JObject 1) [relocateBelow errRAB] [''remote''] = Inr (st2, JObject 1) \<and>
         errorsTag (objects st2 1) =
           Some [GraphQLError ''first'' None None None (Some [Name ''b'']) None None]))"
  using createMergedResult_partitions_by_field [where ?e1.0 = errRAB and ?e2.0 = errRC
      and r = "Name ''r''" and a = "''a''" and b = "Name ''b''" and c = "''c''"
      and st = exampleStore and p = 0 and q = 1 and q' = 1 and ss = "[''remote'']"]
  by (simp add: tagObject_def exampleStore_def errRAB_def errRC_def relocateBelow_def
      relocatedError_def errorConcernsField_def extensions.simps error_properties)

subsection \<open>Arrays\<close>


lemma groupByIndex_raises:
  "dom byIndex \<inter> set objectPrototypeKeys = {} \<Longrightarrow> \<exists>e \<in> set errors. groupsUnderInheritedName e \<Longrightarrow>
   groupByIndex byIndex errors = Inl TypeError"
proof (induction errors arbitrary: byIndex)
  case Nil
  then show ?case by simp
next
  case (Cons e errors)
  show ?case
  proof (cases "path e")
    case None
    then have "\<not> groupsUnderInheritedName e" by (simp add: groupsUnderInheritedName_def)
    with Cons.prems have "\<exists>e \<in> set errors. groupsUnderInheritedName e" by auto
    from Cons.IH [OF Cons.prems(1) this] None show ?thesis by simp
  next
    case (Some p)
    let ?key = "propertyKey (segmentAt p 1)"
    show ?thesis
    proof (cases "?key \<in> set objectPrototypeKeys")
      case True
      with Cons.prems(1) have "byIndex ?key = None" by (auto simp: dom_def)
      with True Some show ?thesis by (simp add: Let_def)
    next
      case False
      with Some have "\<not> groupsUnderInheritedName e" by (simp add: groupsUnderInheritedName_def)
      with Cons.prems have rest: "\<exists>e \<in> set errors. groupsUnderInheritedName e" by auto
      have d: "\<And>v. dom (byIndex(?key \<mapsto> v)) \<inter> set objectPrototypeKeys = {}"
        using Cons.prems(1) False by auto
      show ?thesis
      proof (cases "byIndex ?key")
        case None
        have "groupByIndex (byIndex(?key \<mapsto> [relocateBelow e])) errors = Inl TypeError"
          by (rule Cons.IH [OF d rest])
        with None \<open>path e = Some p\<close> False show ?thesis by (simp add: Let_def)
      next
        case (Some current)
        have "groupByIndex (byIndex(?key \<mapsto> current @ [relocateBelow e])) errors = Inl TypeError"
          by (rule Cons.IH [OF d rest])
        with Some \<open>path e = Some p\<close> show ?thesis by (simp add: Let_def)
      qed
    qed
  qed
qed








text \<open>
  Claim C3. The claim holds for every call in which no grouping loop raises, as the array
  part of the statement above says, but not for every array and every list of errors:
  \<^verbatim>\<open>byIndex\<close> is a plain object, and \<^verbatim>\<open>byIndex[index] || []\<close> finds the properties
  it inherits. Whenever the second segment of the path of one of the errors is the name
  of such a property, \<^verbatim>\<open>current.push\<close> is no function, and the call raises a TypeError
  and returns no array, whatever the array is.
\<close>

theorem createMergedResult_inherited_key_raises:
  "\<exists>e \<in> set errors. groupsUnderInheritedName e \<Longrightarrow>
   createMergedResult st (JArray items) errors ss = Inl TypeError"
proof -
  assume "\<exists>e \<in> set errors. groupsUnderInheritedName e"
  from groupByIndex_raises [OF _ this, of Map.empty]
  have "groupByIndex Map.empty errors = Inl TypeError" by simp
  then show ?thesis by simp
qed

theorem createMergedResult_inherited_key_raises_witness:
  "groupsUnderInheritedName errInherited \<and>
   createMergedResult exampleStore (JArray [JObject 1]) [errInherited] [''remote''] = Inl TypeError"
  using createMergedResult_inherited_key_raises [where errors = "[errInherited]"
      and st = exampleStore and items = "[JObject 1]" and ss = "[''remote'']"]
  by (simp add: groupsUnderInheritedName_def objectPrototypeKeys_def errInherited_def
      segmentAt_def error_properties)

section \<open>Properties of the argument injection\<close>

subsection \<open>Generated variable names\<close>

lemma generateVariableName_fresh:
  "generateVariableName existing counter argumentNm = (varName, counter') \<Longrightarrow> varName \<notin> set existing"
proof (induction existing counter argumentNm rule: generateVariableName.induct)
  case (1 existing counter argumentNm)
  then show ?case
    by (subst (asm) (2) generateVariableName.simps) (auto split: if_splits)
qed

lemma assign_fresh: "key \<notin> fst ` set d \<Longrightarrow> assign d key v = d @ [(key, v)]"
  by (induction d) auto

lemma injectArgument_names:
  assumes "injectArgument argsRef argument st = (None, st')" and "namesInvariant old st"
  shows "namesInvariant old st'"
proof (cases "hasProperty (valueObjects st argsRef) (argumentName argument)")
  case False
  with assms show ?thesis by (simp add: injectArgument_def)
next
  case True
  obtain varName counter where
    g: "generateVariableName (existingVariables st) (variableCounter st) (argumentName argument) = (varName, counter)"
    by (cases "generateVariableName (existingVariables st) (variableCounter st) (argumentName argument)")
  from generateVariableName_fresh[OF g] assms(2) have
    fresh: "varName \<notin> set old" "varName \<notin> fst ` set (operationVariables st)"
    by (auto simp: namesInvariant_def)
  from assms(1) True g obtain typeNode v where
    st': "operationVariables st' = assign (operationVariables st) varName
            \<lparr>variableName = varName, variableType = typeNode, variableRest = []\<rparr>"
      "existingVariables st' = existingVariables st @ [varName]"
    by (auto simp: injectArgument_def Let_def split: sum.splits)
  from st' fresh assms(2) show ?thesis
    by (auto simp: namesInvariant_def assign_fresh)
qed

lemma forEachArgument_names:
  "forEachArgument argsRef arguments st = (None, st') \<Longrightarrow> namesInvariant old st \<Longrightarrow> namesInvariant old st'"
proof (induction arguments arbitrary: st)
  case Nil
  then show ?case by simp
next
  case (Cons argument rest)
  then show ?case
    by (auto split: prod.splits option.splits dest: injectArgument_names)
qed

lemma pushSelection_names [simp]: "namesInvariant old (pushSelection s st) = namesInvariant old st"
  by (simp add: namesInvariant_def pushSelection_def)

lemma newArgs_names [simp]: "namesInvariant old (st\<lparr>newArgs := d\<rparr>) = namesInvariant old st"
  by (simp add: namesInvariant_def)

lemma rewriteSelection_names:
  "rewriteSelection rootType argsRef selection st = (None, st') \<Longrightarrow> namesInvariant old st \<Longrightarrow>
   namesInvariant old st'"
  by (auto simp: rewriteSelection_def Let_def
      split: SelectionNode.splits option.splits prod.splits dest: forEachArgument_names)

lemma forEachSelection_names:
  "forEachSelection rootType argsRef sels st = (None, st') \<Longrightarrow> namesInvariant old st \<Longrightarrow>
   namesInvariant old st'"
proof (induction sels arbitrary: st)
  case Nil
  then show ?case by simp
next
  case (Cons selection rest)
  then show ?case
    by (auto split: prod.splits option.splits dest: rewriteSelection_names)
qed

lemmas example_defs = exampleSchema_def exampleOperation_def exampleState_def exampleRequest_def
  exampleTransform_def

lemmas transform_defs = transformRequest_def addVariablesToRootField_def addVariablesToOperation_def
  rewriteSelection_def injectArgument_def pushSelection_def hasProperty_def getProperty_def
  spread_def variableNameFor_def Let_def

text \<open>
  Claim C7. When the rewriting of an operation completes, its variable definitions are
  the definitions it had, followed by one definition for each injected argument, in the
  order of injection (the names pushed to \<^verbatim>\<open>existingVariables\<close>). The names of the
  new definitions are pairwise distinct, and none of them is the name of a definition the
  operation had, whatever names were declared before. The search for a free name always
  ends: \<^verbatim>\<open>generateVariableName\<close> is a total function.
\<close>

theorem generated_variable_names_unique:
  assumes "addVariablesToOperation targetSchema argsRef opn st = (Inr opn', st')"
  shows "\<exists>generated.
     variableDefinitions opn' = variableDefinitions opn @ generated \<and>
     existingVariables st' =
       map variableName (variableDefinitions opn) @ map variableName generated \<and>
     distinct (map variableName generated) \<and>
     set (map variableName generated) \<inter> set (map variableName (variableDefinitions opn)) = {}"
proof -
  let ?old = "map variableName (variableDefinitions opn)"
  let ?st1 = "st\<lparr>existingVariables := ?old,
                    variableCounter := 0,
                    operationVariables := [],
                    newSelectionSet := nextSelectionArray st,
                    selectionArrays := (selectionArrays st)(nextSelectionArray st := []),
                    nextSelectionArray := Suc (nextSelectionArray st)\<rparr>"
  have init: "namesInvariant ?old ?st1" by (simp add: namesInvariant_def)
  from assms obtain rootType where
    loop: "forEachSelection rootType argsRef (selectionArrays ?st1 (selections opn)) ?st1 = (None, st')"
    and res: "opn' = opn\<lparr>variableDefinitions := variableDefinitions opn @ map snd (operationVariables st'),
                          selections := newSelectionSet st'\<rparr>"
    by (auto simp: addVariablesToOperation_def Let_def split: prod.splits option.splits)
  from forEachSelection_names[OF loop init] have inv: "namesInvariant ?old st'" .
  define generated where "generated = map snd (operationVariables st')"
  have names: "map variableName generated = map fst (operationVariables st')"
    using inv by (simp add: namesInvariant_def generated_def)
  from inv have
    e: "existingVariables st' = ?old @ map fst (operationVariables st')" and
    d: "distinct (map fst (operationVariables st'))" and
    i: "set (map fst (operationVariables st')) \<inter> set ?old = {}"
    unfolding namesInvariant_def by blast+
  have 1: "variableDefinitions opn' = variableDefinitions opn @ generated"
    using res by (simp add: generated_def)
  have 2: "existingVariables st' = ?old @ map variableName generated"
    unfolding names by (rule e)
  have 3: "distinct (map variableName generated)"
    unfolding names by (rule d)
  have 4: "set (map variableName generated) \<inter> set ?old = {}"
    unfolding names by (rule i)
  from 1 2 3 4 show ?thesis by blast
qed

theorem generated_variable_names_unique_witness:
  "\<exists>opn' st'. addVariablesToOperation exampleSchema 0 exampleOperation exampleState = (Inr opn', st') \<and>
     map variableName (variableDefinitions opn') = [''_v0_limit'', ''_v1_limit'', ''_v2_limit''] \<and>
     existingVariables st' = [''_v0_limit'', ''_v1_limit'', ''_v2_limit'']"
proof -
  obtain r st' where run: "addVariablesToOperation exampleSchema 0 exampleOperation exampleState = (r, st')"
    by (cases "addVariablesToOperation exampleSchema 0 exampleOperation exampleState")
  then have r: "r = Inr (exampleOperation\<lparr>variableDefinitions :=
        [\<lparr>variableName = ''_v0_limit'', variableType = NamedType ''Int'', variableRest = []\<rparr>,
         \<lparr>variableName = ''_v1_limit'', variableType = NamedType ''Int'', variableRest = []\<rparr>,
         \<lparr>variableName = ''_v2_limit'', variableType = NamedType ''Int'', variableRest = []\<rparr>],
        selections := 1\<rparr>)"
    and e: "existingVariables st' = [''_v0_limit'', ''_v1_limit'', ''_v2_limit'']"
    by (auto simp: example_defs transform_defs generateVariableName.simps decimal.simps digitChar_def
        objectPrototypeKeys_def)
  from generated_variable_names_unique [OF run [unfolded r]] run r e
  show ?thesis by (simp add: exampleOperation_def)
qed

subsection \<open>The original request\<close>

lemma injectArgument_frame:
  assumes "injectArgument argsRef argument st = (r, st')"
  shows "selectionArrays st' = selectionArrays st \<and>
         nextSelectionArray st' = nextSelectionArray st \<and>
         nextValueObject st' = nextValueObject st \<and>
         newVariables st' = newVariables st \<and>
         newSelectionSet st' = newSelectionSet st \<and>
         (\<forall>a. a \<noteq> newVariables st \<longrightarrow> valueObjects st' a = valueObjects st a)"
  using assms
  by (auto simp: injectArgument_def Let_def split: if_splits prod.splits sum.splits)

lemma forEachArgument_frame:
  "forEachArgument argsRef arguments st = (r, st') \<Longrightarrow>
     selectionArrays st' = selectionArrays st \<and>
     nextSelectionArray st' = nextSelectionArray st \<and>
     nextValueObject st' = nextValueObject st \<and>
     newVariables st' = newVariables st \<and>
     newSelectionSet st' = newSelectionSet st \<and>
     (\<forall>a. a \<noteq> newVariables st \<longrightarrow> valueObjects st' a = valueObjects st a)"
proof (induction arguments arbitrary: st)
  case Nil
  then show ?case by simp
next
  case (Cons argument rest)
  obtain r1 st1 where i: "injectArgument argsRef argument st = (r1, st1)"
    by (cases "injectArgument argsRef argument st")
  note f1 = injectArgument_frame[OF i]
  show ?case
  proof (cases r1)
    case None
    with Cons.prems i have "forEachArgument argsRef rest st1 = (r, st')" by simp
    from Cons.IH[OF this] f1 show ?thesis by simp
  next
    case (Some e)
    with Cons.prems i have "st' = st1" by simp
    with f1 show ?thesis by simp
  qed
qed

lemma rewriteSelection_frame:
  assumes "rewriteSelection rootType argsRef selection st = (r, st')"
  shows "nextSelectionArray st' = nextSelectionArray st \<and>
         nextValueObject st' = nextValueObject st \<and>
         newVariables st' = newVariables st \<and>
         newSelectionSet st' = newSelectionSet st \<and>
         (\<forall>a. a \<noteq> newVariables st \<longrightarrow> valueObjects st' a = valueObjects st a) \<and>
         (\<forall>a. a \<noteq> newSelectionSet st \<longrightarrow> selectionArrays st' a = selectionArrays st a)"
proof (cases selection)
  case (OtherSelection other)
  with assms show ?thesis by (auto simp: rewriteSelection_def pushSelection_def)
next
  case (FieldNode name arguments rest)
  let ?st1 = "st\<lparr>newArgs := foldl (\<lambda>acc argument. assign acc (argName argument) argument) [] arguments\<rparr>"
  show ?thesis
  proof (cases "rootType")
    case None
    with assms FieldNode show ?thesis by (auto simp: rewriteSelection_def)
  next
    case (Some fieldTable)
    show ?thesis
    proof (cases "map_of fieldTable name")
      case None
      with assms FieldNode Some show ?thesis by (auto simp: rewriteSelection_def)
    next
      case (Some field)
      obtain r2 st2 where l: "forEachArgument argsRef (fieldArgs field) ?st1 = (r2, st2)"
        by (cases "forEachArgument argsRef (fieldArgs field) ?st1")
      note f = forEachArgument_frame[OF l]
      from assms FieldNode \<open>rootType = Some fieldTable\<close> Some l
      have "st' = st2 \<or> st' = pushSelection (FieldNode name (map snd (newArgs st2)) rest) st2"
        by (auto simp: rewriteSelection_def Let_def split: option.splits)
      with f show ?thesis by (auto simp: pushSelection_def)
    qed
  qed
qed

lemma forEachSelection_frame:
  "forEachSelection rootType argsRef sels st = (r, st') \<Longrightarrow>
     nextSelectionArray st' = nextSelectionArray st \<and>
     nextValueObject st' = nextValueObject st \<and>
     newVariables st' = newVariables st \<and>
     newSelectionSet st' = newSelectionSet st \<and>
     (\<forall>a. a \<noteq> newVariables st \<longrightarrow> valueObjects st' a = valueObjects st a) \<and>
     (\<forall>a. a \<noteq> newSelectionSet st \<longrightarrow> selectionArrays st' a = selectionArrays st a)"
proof (induction sels arbitrary: st)
  case Nil
  then show ?case by simp
next
  case (Cons selection rest)
  obtain r1 st1 where i: "rewriteSelection rootType argsRef selection st = (r1, st1)"
    by (cases "rewriteSelection rootType argsRef selection st")
  note f1 = rewriteSelection_frame[OF i]
  show ?case
  proof (cases r1)
    case None
    with Cons.prems i have "forEachSelection rootType argsRef rest st1 = (r, st')" by simp
    from Cons.IH[OF this] f1 show ?thesis by simp
  next
    case (Some e)
    with Cons.prems i have "st' = st1" by simp
    with f1 show ?thesis by simp
  qed
qed

lemma addVariablesToOperation_frame:
  assumes "addVariablesToOperation targetSchema argsRef opn st = (r, st')"
  shows "nextSelectionArray st' = Suc (nextSelectionArray st) \<and>
         nextValueObject st' = nextValueObject st \<and>
         newVariables st' = newVariables st \<and>
         (\<forall>a. a \<noteq> newVariables st \<longrightarrow> valueObjects st' a = valueObjects st a) \<and>
         (\<forall>a. a \<noteq> nextSelectionArray st \<longrightarrow> selectionArrays st' a = selectionArrays st a) \<and>
         (\<forall>opn'. r = Inr opn' \<longrightarrow> selections opn' = nextSelectionArray st)"
proof -
  let ?st1 = "st\<lparr>existingVariables := map variableName (variableDefinitions opn),
                    variableCounter := 0,
                    operationVariables := [],
                    newSelectionSet := nextSelectionArray st,
                    selectionArrays := (selectionArrays st)(nextSelectionArray st := []),
                    nextSelectionArray := Suc (nextSelectionArray st)\<rparr>"
  from assms obtain rootType r2 where
    loop: "forEachSelection rootType argsRef (selectionArrays ?st1 (selections opn)) ?st1 = (r2, st')"
    and res: "\<forall>opn'. r = Inr opn' \<longrightarrow> selections opn' = newSelectionSet st'"
    by (auto simp: addVariablesToOperation_def Let_def split: prod.splits option.splits)
  from forEachSelection_frame[OF loop] res show ?thesis by simp
qed

lemma mapOperations_frame:
  "mapOperations targetSchema argsRef ops st = (r, st') \<Longrightarrow>
     nextSelectionArray st \<le> nextSelectionArray st' \<and>
     nextValueObject st' = nextValueObject st \<and>
     newVariables st' = newVariables st \<and>
     (\<forall>a. a \<noteq> newVariables st \<longrightarrow> valueObjects st' a = valueObjects st a) \<and>
     (\<forall>a < nextSelectionArray st. selectionArrays st' a = selectionArrays st a) \<and>
     (\<forall>ops'. r = Inr ops' \<longrightarrow> (\<forall>opn' \<in> set ops'. nextSelectionArray st \<le> selections opn'))"
proof (induction ops arbitrary: st r st')
  case Nil
  then show ?case by auto
next
  case (Cons opn rest)
  obtain r1 st1 where i: "addVariablesToOperation targetSchema argsRef opn st = (r1, st1)"
    by (cases "addVariablesToOperation targetSchema argsRef opn st")
  note f1 = addVariablesToOperation_frame[OF i]
  show ?case
  proof (cases r1)
    case (Inl e)
    with Cons.prems i have "st' = st1" "r = Inl e" by simp_all
    with f1 show ?thesis by simp
  next
    case (Inr opn')
    obtain r2 st2 where m: "mapOperations targetSchema argsRef rest st1 = (r2, st2)"
      by (cases "mapOperations targetSchema argsRef rest st1")
    note f2 = Cons.IH[OF m]
    from Cons.prems i Inr m have st': "st' = st2" and
      r: "r = (case r2 of Inl e \<Rightarrow> Inl e | Inr rest' \<Rightarrow> Inr (opn' # rest'))"
      by (auto split: sum.splits)
    from f1 Inr have s: "selections opn' = nextSelectionArray st" by simp
    have w: "\<forall>ops'. r2 = Inr ops' \<longrightarrow>
        (\<forall>opn'' \<in> set ops'. nextSelectionArray st \<le> selections opn'')"
    proof (intro allI impI ballI)
      fix ops' opn''
      assume "r2 = Inr ops'" and "opn'' \<in> set ops'"
      with f2 have "nextSelectionArray st1 \<le> selections opn''" by blast
      with f1 show "nextSelectionArray st \<le> selections opn''" by simp
    qed
    from f2 have f2': "nextSelectionArray st1 \<le> nextSelectionArray st2"
      "nextValueObject st2 = nextValueObject st1" "newVariables st2 = newVariables st1"
      "\<forall>a. a \<noteq> newVariables st1 \<longrightarrow> valueObjects st2 a = valueObjects st1 a"
      "\<forall>a < nextSelectionArray st1. selectionArrays st2 a = selectionArrays st1 a"
      by blast+
    from f1 f2' s w show ?thesis
      unfolding st' r by (auto split: sum.splits)
  qed
qed

lemma addVariablesToRootField_frame:
  assumes "addVariablesToRootField targetSchema doc argsRef st = (r, st')"
  shows "nextSelectionArray st \<le> nextSelectionArray st' \<and>
         nextValueObject st' = Suc (nextValueObject st) \<and>
         (\<forall>a < nextValueObject st. valueObjects st' a = valueObjects st a) \<and>
         (\<forall>a < nextSelectionArray st. selectionArrays st' a = selectionArrays st a) \<and>
         (\<forall>doc' newVars. r = Inr (doc', newVars) \<longrightarrow>
            newVars = nextValueObject st \<and>
            (\<forall>opn'. OperationDefinition opn' \<in> set (definitions doc') \<longrightarrow>
               nextSelectionArray st \<le> selections opn'))"
proof -
  let ?st1 = "st\<lparr>variableNames := [],
                    newVariables := nextValueObject st,
                    valueObjects := (valueObjects st)(nextValueObject st := []),
                    nextValueObject := Suc (nextValueObject st)\<rparr>"
  obtain r2 where m: "mapOperations targetSchema argsRef (operationsOf (definitions doc)) ?st1 = (r2, st')"
    using assms by (auto simp: addVariablesToRootField_def Let_def split: prod.splits sum.splits)
  note f = mapOperations_frame[OF m]
  have frag: "\<And>opn' ds. OperationDefinition opn' \<notin> set (fragmentsOf ds)"
  proof -
    fix opn' ds show "OperationDefinition opn' \<notin> set (fragmentsOf ds)"
      by (induction ds rule: fragmentsOf.induct) auto
  qed
  from assms m have res: "\<forall>doc' newVars. r = Inr (doc', newVars) \<longrightarrow>
      newVars = newVariables st' \<and>
      (\<exists>ops'. r2 = Inr ops' \<and>
         definitions doc' = map OperationDefinition ops' @ fragmentsOf (definitions doc))"
    by (auto simp: addVariablesToRootField_def Let_def split: sum.splits)
  from f res frag show ?thesis by (auto simp: image_iff)
qed

text \<open>
  Claim C9. \<^verbatim>\<open>transformRequest\<close> leaves every array of selections and every object of
  variables that was allocated before the call as it was, whether it returns or raises:
  the selection sets of the original request's operations, its variables, and the
  arguments of the transform among them. The definitions of the original document and
  the variable definitions of its operations are values that no statement writes to. The
  request it returns is new: its variables object and the selection arrays of its
  operations are allocated by the call.
\<close>

theorem transformRequest_leaves_original:
  "case transformRequest transform originalRequest st of
     (r, st') \<Rightarrow>
       (\<forall>a < nextSelectionArray st. selectionArrays st' a = selectionArrays st a) \<and>
       (\<forall>a < nextValueObject st. valueObjects st' a = valueObjects st a) \<and>
       nextSelectionArray st \<le> nextSelectionArray st' \<and>
       nextValueObject st \<le> nextValueObject st' \<and>
       (\<forall>request'. r = Inr request' \<longrightarrow>
          nextValueObject st \<le> variables request' \<and>
          (\<forall>opn'. OperationDefinition opn' \<in> set (definitions (document request')) \<longrightarrow>
             nextSelectionArray st \<le> selections opn'))"
proof -
  obtain r1 st1 where
    a: "addVariablesToRootField (schema transform) (document originalRequest) (args transform) st = (r1, st1)"
    by (cases "addVariablesToRootField (schema transform) (document originalRequest) (args transform) st")
  note f = addVariablesToRootField_frame[OF a]
  show ?thesis
  proof (cases r1)
    case (Inl e)
    with a f show ?thesis by (simp add: transformRequest_def)
  next
    case (Inr res)
    obtain doc' newVars where res: "res = (doc', newVars)" by (cases res)
    from a f Inr res show ?thesis by (auto simp: transformRequest_def)
  qed
qed

theorem transformRequest_leaves_original_witness:
  "case transformRequest exampleTransform exampleRequest exampleState of
     (r, st') \<Rightarrow>
       selectionArrays st' 0 = selectionArrays exampleState 0 \<and>
       valueObjects st' 0 = [(''limit'', ANum 5)] \<and>
       valueObjects st' 1 = [(''_v0_limit'', ANum 3)] \<and>
       (\<exists>request'. r = Inr request' \<and> variables request' = 3) \<and>
       valueObjects st' 3 = [(''_v0_limit'', ANum 3), (''_v1_limit'', ANum 5), (''_v2_limit'', ANum 5)]"
  using transformRequest_leaves_original [where transform = exampleTransform
      and originalRequest = exampleRequest and st = exampleState]
  by (simp add: example_defs transform_defs generateVariableName.simps decimal.simps digitChar_def
      objectPrototypeKeys_def)

end
